theory Spec2Isabelle
  imports Complex_Main "HOL-Library.Sublist"
begin

section \<open>Shared helpers: JavaScript strings and arrays\<close>

text \<open>
  Strings are lists of 8-bit characters. \<open>string_of_nat\<close> is the decimal rendering that a
  template literal applies to a non-negative integer; \<open>toUpperCase\<close> is
  \<^verbatim>\<open>String.prototype.toUpperCase\<close> on the ASCII letters.
\<close>

fun string_of_nat :: "nat \<Rightarrow> string" where
  "string_of_nat n =
     (if n < 10 then [char_of (48 + n)]
      else string_of_nat (n div 10) @ [char_of (48 + n mod 10)])"

declare string_of_nat.simps [simp del]

definition upper_char :: "char \<Rightarrow> char" where
  "upper_char c =
     (if 97 \<le> (of_char c :: nat) \<and> (of_char c :: nat) \<le> 122
      then char_of ((of_char c :: nat) - 32) else c)"

definition toUpperCase :: "string \<Rightarrow> string" where
  "toUpperCase s = map upper_char s"

text \<open>
  \<^verbatim>\<open>Array.prototype.slice(start, end)\<close>: a negative index counts from the end of the array,
  and both indices are clamped to the array.
\<close>

definition rel_index :: "int \<Rightarrow> nat \<Rightarrow> nat" where
  "rel_index k len = (if k < 0 then nat (max (int len + k) 0) else min (nat k) len)"

definition js_slice :: "'a list \<Rightarrow> int \<Rightarrow> int \<Rightarrow> 'a list" where
  "js_slice xs start end =
     (let from = rel_index start (length xs); to = rel_index end (length xs)
      in take (to - from) (drop from xs))"

text \<open>\<^verbatim>\<open>xs.slice(start)\<close>, with the end left out.\<close>

definition js_slice_from :: "'a list \<Rightarrow> int \<Rightarrow> 'a list" where
  "js_slice_from xs start = drop (rel_index start (length xs)) xs"

section \<open>LLM gateway (llmService)\<close>

subsection \<open>Configuration\<close>

record llm_config =
  provider :: string
  openaiApiKey :: string
  openaiModel :: string
  geminiApiKey :: string
  geminiModel :: string
  claudeApiKey :: string
  claudeModel :: string
  mistralApiKey :: string
  mistralModel :: string
  maxTokens :: nat
  timeout :: nat
  maxRetries :: nat
  retryDelay :: nat

text \<open>The environment variables the module reads when it is loaded.\<close>

record process_env =
  LLM_PROVIDER :: "string option"
  OPENAI_API_KEY :: "string option"
  GEMINI_API_KEY :: "string option"
  CLAUDE_API_KEY :: "string option"
  MISTRAL_API_KEY :: "string option"

text \<open>\<^verbatim>\<open>process.env.X || d\<close>: an unset or empty variable gives the default.\<close>

definition env_or :: "string option \<Rightarrow> string \<Rightarrow> string" where
  "env_or v d = (case v of None \<Rightarrow> d | Some s \<Rightarrow> if s = [] then d else s)"

definition config :: "process_env \<Rightarrow> llm_config" where
  "config env =
     \<lparr> provider = env_or (LLM_PROVIDER env) ''gemini'',
       openaiApiKey = env_or (OPENAI_API_KEY env) [],
       openaiModel = ''gpt-3.5-turbo'',
       geminiApiKey = env_or (GEMINI_API_KEY env) [],
       geminiModel = ''gemini-1.0-pro'',
       claudeApiKey = env_or (CLAUDE_API_KEY env) [],
       claudeModel = ''claude-3-haiku-20240307'',
       mistralApiKey = env_or (MISTRAL_API_KEY env) [],
       mistralModel = ''mistral-tiny'',
       maxTokens = 500,
       timeout = 30000,
       maxRetries = 3,
       retryDelay = 1000 \<rparr>"

definition getCurrentModel :: "llm_config \<Rightarrow> string" where
  "getCurrentModel cfg =
     (if provider cfg = ''openai'' then openaiModel cfg
      else if provider cfg = ''gemini'' then geminiModel cfg
      else if provider cfg = ''claude'' then claudeModel cfg
      else if provider cfg = ''mistral'' then mistralModel cfg
      else if provider cfg = ''mock'' then ''mock-model''
      else ''unknown'')"

definition getCurrentApiKey :: "llm_config \<Rightarrow> string" where
  "getCurrentApiKey cfg =
     (if provider cfg = ''openai'' then openaiApiKey cfg
      else if provider cfg = ''gemini'' then geminiApiKey cfg
      else if provider cfg = ''claude'' then claudeApiKey cfg
      else if provider cfg = ''mistral'' then mistralApiKey cfg
      else if provider cfg = ''mock'' then ''mock-key''
      else [])"

subsection \<open>Errors, promises, responses\<close>

text \<open>A JavaScript \<^verbatim>\<open>Error\<close> with its message.\<close>

datatype js_error = Error string

fun err_message :: "js_error \<Rightarrow> string" where
  "err_message (Error m) = m"

text \<open>
  How a call of a promise-returning function ends: the call itself throws before any
  promise exists (\<open>Thrown\<close>), or it returns a promise that is later rejected or resolved.
\<close>

datatype 'a completion = Thrown js_error | Rejected js_error | Resolved 'a

record llm_response =
  r_content :: string
  r_tokensUsed :: nat
  r_model :: string
  r_provider :: string
  fallback :: bool

text \<open>
  The world outside the module: what the \<open>k\<close>-th HTTP attempt of a call comes to (a failure
  with its message: network error, timeout, non-success status, unparsable body; or a
  parsed body with its content and token count), and the canned answer of the keyword
  table of \<^verbatim>\<open>generateMockResponse\<close>.
\<close>

datatype attempt_outcome = Fails string | Succeeds string nat

record llm_world =
  network :: "nat \<Rightarrow> attempt_outcome"
  generateMockResponse :: "string \<Rightarrow> string"

text \<open>
  The module state: the two usage counters, and a log of what the gateway did, in order:
  each call of \<^verbatim>\<open>makeAPICall\<close> by the retry loop with its attempt number, each
  \<^verbatim>\<open>setTimeout\<close> delay in milliseconds.
\<close>

datatype llm_event = ApiCall nat | Backoff nat | MockDelay nat

record llm_state =
  totalTokensUsed :: nat
  requestCount :: nat
  trace :: "llm_event list"

subsection \<open>The calls\<close>

text \<open>
  \<^verbatim>\<open>getApiConfig\<close> and \<^verbatim>\<open>buildRequestBody\<close> throw for a provider outside the five
  names of their \<^verbatim>\<open>switch\<close>; \<^verbatim>\<open>makeAPICall\<close> calls them before it builds its promise,
  so there it throws. The mock provider resolves after a fixed delay and leaves the
  counters alone; a real provider counts the tokens and the request when the response
  has been parsed. The \<^verbatim>\<open>timestamp\<close> field of a response (a clock reading) and the
  \<^verbatim>\<open>temperature\<close> setting are left out.
\<close>

definition supported :: "string \<Rightarrow> bool" where
  "supported p \<longleftrightarrow> p \<in> set [''openai'', ''gemini'', ''claude'', ''mistral'', ''mock'']"

definition makeAPICall ::
  "llm_config \<Rightarrow> llm_world \<Rightarrow> nat \<Rightarrow> string \<Rightarrow> llm_state \<Rightarrow> llm_response completion \<times> llm_state" where
  "makeAPICall cfg w k prompt st =
     (if provider cfg = ''mock'' then
        (Resolved \<lparr> r_content = generateMockResponse w prompt, r_tokensUsed = 0,
                    r_model = ''mock-model'', r_provider = ''mock'', fallback = False \<rparr>,
         st\<lparr>trace := trace st @ [MockDelay 500]\<rparr>)
      else if \<not> supported (provider cfg) then
        (Thrown (Error (''Unsupported provider: '' @ provider cfg)), st)
      else
        (case network w k of
           Fails msg \<Rightarrow> (Rejected (Error msg), st)
         | Succeeds c t \<Rightarrow>
             (Resolved \<lparr> r_content = c, r_tokensUsed = t, r_model = getCurrentModel cfg,
                         r_provider = provider cfg, fallback = False \<rparr>,
              st\<lparr>totalTokensUsed := totalTokensUsed st + t,
                 requestCount := requestCount st + 1\<rparr>)))"

text \<open>
  The inner function \<^verbatim>\<open>tryCall\<close> of \<^verbatim>\<open>callLLM\<close>, with the closure variable
  \<^verbatim>\<open>attempt\<close> as a parameter. The first round runs inside the promise executor, where an
  exception of \<^verbatim>\<open>makeAPICall\<close> becomes a rejection; \<^verbatim>\<open>callLLM\<close> only gets here with a
  supported provider (\<open>key_supported\<close>), so no later round meets one.
\<close>

function tryCall ::
  "llm_config \<Rightarrow> llm_world \<Rightarrow> string \<Rightarrow> nat \<Rightarrow> llm_state \<Rightarrow> llm_response completion \<times> llm_state" where
  "tryCall cfg w prompt attempt st =
     (case makeAPICall cfg w attempt prompt (st\<lparr>trace := trace st @ [ApiCall attempt]\<rparr>) of
        (Resolved response, st1) \<Rightarrow>
          (Resolved response, st1\<lparr>requestCount := requestCount st1 + 1\<rparr>)
      | (Rejected e, st1) \<Rightarrow>
          if attempt \<ge> maxRetries cfg then
            (Rejected (Error (''LLM API failed after '' @ string_of_nat (maxRetries cfg)
                              @ '' attempts: '' @ err_message e)), st1)
          else
            tryCall cfg w prompt (attempt + 1)
              (st1\<lparr>trace := trace st1 @ [Backoff (retryDelay cfg * 2 ^ (attempt - 1))]\<rparr>)
      | (Thrown e, st1) \<Rightarrow> (Rejected e, st1))"
  by pat_completeness auto
termination
  by (relation "measure (\<lambda>(cfg, w, prompt, attempt, st). maxRetries cfg - attempt)") auto

declare tryCall.simps [simp del]

definition callLLM ::
  "llm_config \<Rightarrow> llm_world \<Rightarrow> string \<Rightarrow> llm_state \<Rightarrow> llm_response completion \<times> llm_state" where
  "callLLM cfg w prompt st =
     (if getCurrentApiKey cfg = [] then
        (Thrown (Error (''API key is required. Set '' @ toUpperCase (provider cfg)
                        @ ''_API_KEY environment variable.'')), st)
      else tryCall cfg w prompt 1 st)"

definition generateFallbackResponse :: "string \<Rightarrow> llm_response" where
  "generateFallbackResponse err =
     \<lparr> r_content = ''I apologize, but I'' @ [CHR 0x27] @ ''m currently experiencing issues with the AI service. This might be due to API quota limits or temporary service disruptions. The RAG system is working correctly - I can still retrieve relevant documents, but I'' @ [CHR 0x27] @ ''m unable to generate AI responses right now. Please try again later or contact support if the issue persists.'',
       r_tokensUsed = 0,
       r_model = ''fallback-response'',
       r_provider = ''fallback'',
       fallback = True \<rparr>"

text \<open>
  \<^verbatim>\<open>callLLM(prompt).catch(...)\<close>: the handler is attached to the promise that
  \<^verbatim>\<open>callLLM\<close> returns, so it sees a rejection; an exception thrown by the call itself
  leaves \<^verbatim>\<open>callLLMWithFallback\<close> as it is.
\<close>

definition callLLMWithFallback ::
  "llm_config \<Rightarrow> llm_world \<Rightarrow> string \<Rightarrow> llm_state \<Rightarrow> llm_response completion \<times> llm_state" where
  "callLLMWithFallback cfg w prompt st =
     (case callLLM cfg w prompt st of
        (Rejected e, st1) \<Rightarrow> (Resolved (generateFallbackResponse (err_message e)), st1)
      | (Thrown e, st1) \<Rightarrow> (Thrown e, st1)
      | (Resolved response, st1) \<Rightarrow> (Resolved response, st1))"

text \<open>A process with none of the environment variables set, and the counters at load time.\<close>

definition env_unset :: process_env where
  "env_unset = \<lparr> LLM_PROVIDER = None, OPENAI_API_KEY = None, GEMINI_API_KEY = None,
                 CLAUDE_API_KEY = None, MISTRAL_API_KEY = None \<rparr>"

definition state0 :: llm_state where
  "state0 = \<lparr> totalTokensUsed = 0, requestCount = 0, trace = [] \<rparr>"

section \<open>Conversation store (conversationManager)\<close>

text \<open>
  Times are milliseconds since the epoch (what \<^verbatim>\<open>new Date(...)\<close> subtracts); the clock
  reading of a call is its parameter \<open>now\<close>, the random message id its parameter \<open>mid\<close>.
  Writing the session file (\<^verbatim>\<open>saveSessions\<close>, whose errors are caught and logged) is
  outside the model.
\<close>

definition maxHistoryLength :: nat where
  "maxHistoryLength = 6"

definition sessionTimeout :: int where
  "sessionTimeout = 3600000"

record message_metadata =
  md_tokensUsed :: nat
  md_model :: string
  md_retrievedChunks :: nat
  md_similarityScores :: "real list"

text \<open>The optional \<^verbatim>\<open>metadata\<close> argument of \<^verbatim>\<open>addMessage\<close>: each field may be absent.\<close>

record metadata_arg =
  arg_tokensUsed :: "nat option"
  arg_model :: "string option"
  arg_retrievedChunks :: "nat option"
  arg_similarityScores :: "real list option"

record message =
  m_id :: string
  m_role :: string
  m_content :: string
  m_timestamp :: int
  m_metadata :: message_metadata

record session =
  s_id :: string
  createdAt :: int
  lastActivity :: int
  messages :: "message list"
  messageCount :: nat

type_synonym sessions = "string \<rightharpoonup> session"

record history_entry =
  h_role :: string
  h_content :: string
  h_timestamp :: int

definition isSessionExpired :: "int \<Rightarrow> session \<Rightarrow> bool" where
  "isSessionExpired now s \<longleftrightarrow> now - lastActivity s > sessionTimeout"

text \<open>A lookup deletes the session it finds expired, so it returns the new store too.\<close>

definition getSession :: "int \<Rightarrow> string \<Rightarrow> sessions \<Rightarrow> session option \<times> sessions" where
  "getSession now sessionId st =
     (case st sessionId of
        None \<Rightarrow> (None, st)
      | Some s \<Rightarrow>
          if isSessionExpired now s then (None, st(sessionId := None))
          else (Some s, st))"

definition or_default :: "'a option \<Rightarrow> 'a \<Rightarrow> 'a" where
  "or_default v d = (case v of None \<Rightarrow> d | Some x \<Rightarrow> x)"

definition mk_message :: "int \<Rightarrow> string \<Rightarrow> string \<Rightarrow> string \<Rightarrow> metadata_arg \<Rightarrow> message" where
  "mk_message now mid role content metadata =
     \<lparr> m_id = mid, m_role = role, m_content = content, m_timestamp = now,
       m_metadata =
         \<lparr> md_tokensUsed = or_default (arg_tokensUsed metadata) 0,
           md_model = or_default (arg_model metadata) [],
           md_retrievedChunks = or_default (arg_retrievedChunks metadata) 0,
           md_similarityScores = or_default (arg_similarityScores metadata) [] \<rparr> \<rparr>"

text \<open>\<^verbatim>\<open>xs.splice(0, n)\<close> for \<open>n \<ge> 0\<close>: the array without its first \<open>n\<close> elements.\<close>

definition splice0 :: "'a list \<Rightarrow> nat \<Rightarrow> 'a list" where
  "splice0 xs n = drop n xs"

definition addMessage ::
  "int \<Rightarrow> string \<Rightarrow> string \<Rightarrow> string \<Rightarrow> string \<Rightarrow> metadata_arg \<Rightarrow> sessions
     \<Rightarrow> (js_error + session) \<times> sessions" where
  "addMessage now mid sessionId role content metadata st =
     (case getSession now sessionId st of
        (None, st1) \<Rightarrow>
          (Inl (Error (''Session '' @ sessionId @ '' not found or expired'')), st1)
      | (Some s, st1) \<Rightarrow>
          let pushed = messages s @ [mk_message now mid role content metadata];
              trimmed =
                (if length pushed > maxHistoryLength
                 then splice0 pushed (length pushed - maxHistoryLength) else pushed);
              s' = s\<lparr> messages := trimmed, messageCount := messageCount s + 1,
                      lastActivity := now \<rparr>
          in (Inr s', st1(sessionId \<mapsto> s')))"

text \<open>One \<^verbatim>\<open>addMessage\<close> call on a session: its clock reading, message id and arguments.\<close>

record add_call =
  call_now :: int
  call_mid :: string
  call_role :: string
  call_content :: string
  call_metadata :: metadata_arg

definition message_of :: "add_call \<Rightarrow> message" where
  "message_of c =
     mk_message (call_now c) (call_mid c) (call_role c) (call_content c) (call_metadata c)"

text \<open>
  A run of calls on one session id, each after the other; the run stops at the first call
  that throws, as the exception would.
\<close>

fun addMessages :: "string \<Rightarrow> add_call list \<Rightarrow> sessions \<Rightarrow> js_error + sessions" where
  "addMessages sessionId [] st = Inr st"
| "addMessages sessionId (c # cs) st =
     (case addMessage (call_now c) (call_mid c) sessionId (call_role c) (call_content c)
             (call_metadata c) st of
        (Inl e, st1) \<Rightarrow> Inl e
      | (Inr s, st1) \<Rightarrow> addMessages sessionId cs st1)"

definition getConversationHistory ::
  "int \<Rightarrow> string \<Rightarrow> int option \<Rightarrow> sessions \<Rightarrow> history_entry list \<times> sessions" where
  "getConversationHistory now sessionId limit st =
     (case getSession now sessionId st of
        (None, st1) \<Rightarrow> ([], st1)
      | (Some s, st1) \<Rightarrow>
          let msgs =
                (case limit of
                   None \<Rightarrow> messages s
                 | Some l \<Rightarrow> if l \<noteq> 0 \<and> l > 0 then js_slice_from (messages s) (- l)
                             else messages s)
          in (map (\<lambda>msg. \<lparr> h_role = m_role msg, h_content = m_content msg,
                             h_timestamp = m_timestamp msg \<rparr>) msgs, st1))"

text \<open>The \<open>n\<close> most recent elements of a list that grows at its end, oldest first.\<close>

definition keep_last :: "nat \<Rightarrow> 'a list \<Rightarrow> 'a list" where
  "keep_last n xs = drop (length xs - n) xs"

text \<open>A store with one session, last active at time 0, and the \<open>k\<close>-th call of a run on it.\<close>

definition demo_session :: session where
  "demo_session = \<lparr> s_id = ''s1'', createdAt = 0, lastActivity = 0, messages = [], messageCount = 0 \<rparr>"

definition demo_store :: sessions where
  "demo_store = Map.empty(''s1'' \<mapsto> demo_session)"

definition demo_call :: "nat \<Rightarrow> add_call" where
  "demo_call k =
     \<lparr> call_now = int k, call_mid = string_of_nat k, call_role = ''user'',
       call_content = ''message '' @ string_of_nat k,
       call_metadata = \<lparr> arg_tokensUsed = None, arg_model = None,
                         arg_retrievedChunks = None, arg_similarityScores = None \<rparr> \<rparr>"

section \<open>Chunker (documentManager)\<close>

text \<open>\<^verbatim>\<open>text.split(' ')\<close> and \<^verbatim>\<open>words.join(' ')\<close>.\<close>

fun split_space :: "string \<Rightarrow> string list" where
  "split_space [] = [[]]"
| "split_space (c # cs) =
     (if c = CHR '' '' then [] # split_space cs
      else (case split_space cs of
              w # ws \<Rightarrow> (c # w) # ws
            | [] \<Rightarrow> [[c]]))"

fun join_space :: "string list \<Rightarrow> string" where
  "join_space [] = []"
| "join_space [w] = w"
| "join_space (w # v # ws) = w @ '' '' @ join_space (v # ws)"

definition config_chunkSize :: int where
  "config_chunkSize = 300"

definition config_chunkOverlap :: int where
  "config_chunkOverlap = 50"

text \<open>
  The \<^verbatim>\<open>for\<close> loop of \<^verbatim>\<open>chunkText\<close>, with the loop variable \<open>i\<close> and the array \<open>chunks\<close>
  built so far. Nothing in the source bounds the number of rounds, so the loop is a
  partial function: \<open>None\<close> is a loop that never ends.
\<close>

partial_function (option) chunk_loop ::
  "string list \<Rightarrow> int \<Rightarrow> int \<Rightarrow> int \<Rightarrow> string list \<Rightarrow> string list option" where
  "chunk_loop words chunkSize overlap i chunks =
     (if i < int (length words) then
        (if i + chunkSize \<ge> int (length words)
         then Some (chunks @ [join_space (js_slice words i (i + chunkSize))])
         else chunk_loop words chunkSize overlap (i + (chunkSize - overlap))
                (chunks @ [join_space (js_slice words i (i + chunkSize))]))
      else Some chunks)"

declare chunk_loop.simps [code]

definition chunkText :: "string \<Rightarrow> int \<Rightarrow> int \<Rightarrow> string list option" where
  "chunkText text chunkSize overlap = chunk_loop (split_space text) chunkSize overlap 0 []"

text \<open>A text of 301 words.\<close>

definition long_text :: string where
  "long_text = concat (replicate 300 ''w '') @ ''w''"

section \<open>IEEE 754 binary64 numbers\<close>

text \<open>
  A JavaScript number is an IEEE 754 binary64 value: a finite number, one of the two
  infinities, or \<^verbatim>\<open>NaN\<close>. A finite number is given by its real value; the two zeros are
  one value (the function below compares and multiplies zeros, and never divides by
  one: \<open>product_of_norms_not_zero\<close>).
\<close>

datatype double = Num real | PInf | NInf | NaN

text \<open>
  Rounding to nearest, ties to even. \<open>rne\<close> rounds a real number to an integer;
  \<open>exponent\<close> is the binary exponent of a number, held at \<open>-1022\<close> for the subnormal
  range; \<open>quantum\<close> is the distance between neighbouring doubles at that exponent
  (53 significant bits). A result of magnitude \<open>2 ^ 1024\<close> or more after rounding is an
  infinity.
\<close>

definition rne :: "real \<Rightarrow> int" where
  "rne x =
     (let f = \<lfloor>x\<rfloor>; d = x - of_int f
      in if d < 1 / 2 then f else if 1 / 2 < d then f + 1 else if even f then f else f + 1)"

definition exponent :: "real \<Rightarrow> int" where
  "exponent x = max \<lfloor>log 2 \<bar>x\<bar>\<rfloor> (- 1022)"

definition quantum :: "real \<Rightarrow> real" where
  "quantum x = 2 powr of_int (exponent x - 52)"

definition round64 :: "real \<Rightarrow> double" where
  "round64 x =
     (if x = 0 then Num 0
      else let r = quantum x * of_int (rne (x / quantum x))
           in if 2 ^ 1024 \<le> \<bar>r\<bar> then (if 0 < x then PInf else NInf) else Num r)"

text \<open>
  The four operations the function uses: each is the exact result, rounded, with the
  IEEE rules for infinities and \<^verbatim>\<open>NaN\<close>. \<^verbatim>\<open>Math.sqrt\<close> is the correctly rounded square
  root. A division of a non-zero number by zero gives the infinity of the dividend's sign.
\<close>

fun fmul :: "double \<Rightarrow> double \<Rightarrow> double" where
  "fmul NaN _ = NaN"
| "fmul _ NaN = NaN"
| "fmul (Num x) (Num y) = round64 (x * y)"
| "fmul (Num x) PInf = (if x = 0 then NaN else if 0 < x then PInf else NInf)"
| "fmul (Num x) NInf = (if x = 0 then NaN else if 0 < x then NInf else PInf)"
| "fmul PInf (Num y) = (if y = 0 then NaN else if 0 < y then PInf else NInf)"
| "fmul NInf (Num y) = (if y = 0 then NaN else if 0 < y then NInf else PInf)"
| "fmul PInf PInf = PInf"
| "fmul PInf NInf = NInf"
| "fmul NInf PInf = NInf"
| "fmul NInf NInf = PInf"

fun fadd :: "double \<Rightarrow> double \<Rightarrow> double" where
  "fadd NaN _ = NaN"
| "fadd _ NaN = NaN"
| "fadd (Num x) (Num y) = round64 (x + y)"
| "fadd PInf NInf = NaN"
| "fadd NInf PInf = NaN"
| "fadd PInf _ = PInf"
| "fadd _ PInf = PInf"
| "fadd NInf _ = NInf"
| "fadd _ NInf = NInf"

fun fsqrt :: "double \<Rightarrow> double" where
  "fsqrt NaN = NaN"
| "fsqrt NInf = NaN"
| "fsqrt PInf = PInf"
| "fsqrt (Num x) = (if x < 0 then NaN else round64 (sqrt x))"

fun fdiv :: "double \<Rightarrow> double \<Rightarrow> double" where
  "fdiv NaN _ = NaN"
| "fdiv _ NaN = NaN"
| "fdiv (Num x) (Num y) =
     (if y = 0 then (if x = 0 then NaN else if 0 < x then PInf else NInf)
      else round64 (x / y))"
| "fdiv (Num x) PInf = Num 0"
| "fdiv (Num x) NInf = Num 0"
| "fdiv PInf (Num y) = (if 0 \<le> y then PInf else NInf)"
| "fdiv NInf (Num y) = (if 0 \<le> y then NInf else PInf)"
| "fdiv PInf PInf = NaN"
| "fdiv PInf NInf = NaN"
| "fdiv NInf PInf = NaN"
| "fdiv NInf NInf = NaN"

text \<open>The number of the opposite sign; rounding is symmetric under it (\<open>round64_minus\<close>).\<close>

fun fneg :: "double \<Rightarrow> double" where
  "fneg (Num x) = Num (- x)"
| "fneg PInf = NInf"
| "fneg NInf = PInf"
| "fneg NaN = NaN"

text \<open>
  Two sizes of doubles: \<open>coarse\<close> is zero or at least the smallest subnormal in magnitude
  (every rounded number is), \<open>large\<close> is at least the square root of the smallest
  subnormal.
\<close>

definition coarse :: "double \<Rightarrow> bool" where
  "coarse d = (case d of Num v \<Rightarrow> v = 0 \<or> 2 powr (- 1074) \<le> \<bar>v\<bar> | _ \<Rightarrow> True)"

definition large :: "double \<Rightarrow> bool" where
  "large d = (case d of Num r \<Rightarrow> 2 powr (- 537) \<le> r | _ \<Rightarrow> True)"

section \<open>Retrieval and prompt assembly (ragPipeline)\<close>

text \<open>
  The search compares scores and nothing else. Its scores are real numbers, given by
  \<open>calculateCosineSimilarity_exact\<close>: the formula of \<^verbatim>\<open>calculateCosineSimilarity\<close> in
  exact arithmetic. What is proved of the search uses no property of that arithmetic, so it
  holds of the scores the program computes as long as none of them is \<^verbatim>\<open>NaN\<close> (with a
  \<^verbatim>\<open>NaN\<close> the comparator of the sort is inconsistent and the language leaves the order
  open). The function as it runs, on doubles, is \<open>calculateCosineSimilarity\<close> below.
\<close>

record store_entry =
  e_id :: string
  documentTitle :: string
  documentIndex :: nat
  chunkIndex :: nat
  e_content :: string
  wordCount :: nat
  embedding :: "real list"

text \<open>\<^verbatim>\<open>{...chunk, similarity}\<close>: a store entry with its score.\<close>

record scored_entry =
  chunk :: store_entry
  similarity :: real


text \<open>The loop and the body of the function in exact arithmetic.\<close>

fun cosine_loop_exact :: "real list \<Rightarrow> real list \<Rightarrow> real \<times> real \<times> real \<Rightarrow> real \<times> real \<times> real" where
  "cosine_loop_exact (a # as) (b # bs) (dotProduct, normA, normB) =
     cosine_loop_exact as bs (dotProduct + a * b, normA + a * a, normB + b * b)"
| "cosine_loop_exact _ _ acc = acc"

definition calculateCosineSimilarity_exact :: "real list \<Rightarrow> real list \<Rightarrow> js_error + real" where
  "calculateCosineSimilarity_exact vecA vecB =
     (if length vecA \<noteq> length vecB then Inl (Error ''Vectors must have the same dimensions'')
      else
        (case cosine_loop_exact vecA vecB (0, 0, 0) of
           (dotProduct, sumA, sumB) \<Rightarrow>
             let normA = sqrt sumA; normB = sqrt sumB
             in if normA = 0 \<or> normB = 0 then Inr 0
                else Inr (dotProduct / (normA * normB))))"

text \<open>
  \<^verbatim>\<open>calculateCosineSimilarity\<close> as the program runs it, on doubles: the loop with its three
  accumulators, the two square roots, the test of the norms against \<open>0\<close>, the division.
\<close>

fun cosine_loop ::
  "double list \<Rightarrow> double list \<Rightarrow> double \<times> double \<times> double \<Rightarrow> double \<times> double \<times> double" where
  "cosine_loop (a # as) (b # bs) (dotProduct, normA, normB) =
     cosine_loop as bs
       (fadd dotProduct (fmul a b), fadd normA (fmul a a), fadd normB (fmul b b))"
| "cosine_loop _ _ acc = acc"

definition calculateCosineSimilarity :: "double list \<Rightarrow> double list \<Rightarrow> js_error + double" where
  "calculateCosineSimilarity vecA vecB =
     (if length vecA \<noteq> length vecB then Inl (Error ''Vectors must have the same dimensions'')
      else
        (case cosine_loop vecA vecB (Num 0, Num 0, Num 0) of
           (dotProduct, sumA, sumB) \<Rightarrow>
             let normA = fsqrt sumA; normB = fsqrt sumB
             in if normA = Num 0 \<or> normB = Num 0 then Inr (Num 0)
                else Inr (fdiv dotProduct (fmul normA normB))))"

text \<open>
  The dot product and the norm as the loop computes them, each on its own: the terms are
  added from the left, with a rounding after every product and every sum.
\<close>

definition dot_f64 :: "double list \<Rightarrow> double list \<Rightarrow> double" where
  "dot_f64 as bs = foldl (\<lambda>s (a, b). fadd s (fmul a b)) (Num 0) (zip as bs)"

definition norm_f64 :: "double list \<Rightarrow> double" where
  "norm_f64 as = fsqrt (foldl (\<lambda>s a. fadd s (fmul a a)) (Num 0) as)"

text \<open>\<^verbatim>\<open>vectorStore.map(...)\<close>: the first entry whose dimension differs ends the map.\<close>

fun similarities :: "real list \<Rightarrow> store_entry list \<Rightarrow> js_error + scored_entry list" where
  "similarities q [] = Inr []"
| "similarities q (c # cs) =
     (case calculateCosineSimilarity_exact q (embedding c) of
        Inl e \<Rightarrow> Inl e
      | Inr s \<Rightarrow>
          (case similarities q cs of
             Inl e \<Rightarrow> Inl e
           | Inr rs \<Rightarrow> Inr (\<lparr> chunk = c, similarity = s \<rparr> # rs)))"



record context_entry =
  c_id :: string
  title :: string
  c_content :: string
  c_similarity :: real
  order :: nat

text \<open>\<^verbatim>\<open>relevantChunks.map((chunk, index) => ...)\<close> in \<^verbatim>\<open>retrieveContext\<close>.\<close>

fun format_context :: "scored_entry list \<Rightarrow> nat \<Rightarrow> context_entry list" where
  "format_context [] index = []"
| "format_context (r # rs) index =
     \<lparr> c_id = e_id (chunk r), title = documentTitle (chunk r),
       c_content = e_content (chunk r), c_similarity = similarity r,
       order = index + 1 \<rparr> # format_context rs (index + 1)"

record history_msg =
  hm_role :: string
  hm_content :: string

definition nl :: string where
  "nl = [CHR 0x0A]"

definition system_instructions :: string where
  "system_instructions =
     ''You are a helpful AI assistant. Answer the user'' @ [CHR 0x27]
       @ ''s question based ONLY on the provided context. ''
     @ ''If the context doesn'' @ [CHR 0x27]
       @ ''t contain enough information to answer the question, say so clearly. ''
     @ ''Do not make up information or hallucinate answers.'' @ nl @ nl"

text \<open>The two \<^verbatim>\<open>forEach\<close> loops of \<^verbatim>\<open>constructPrompt\<close>, appending to \<open>prompt\<close>.\<close>

fun history_loop :: "history_msg list \<Rightarrow> string \<Rightarrow> string" where
  "history_loop [] prompt = prompt"
| "history_loop (msg # rest) prompt =
     history_loop rest
       (prompt @ (if hm_role msg = ''user'' then ''User'' else ''Assistant'')
               @ '': '' @ hm_content msg @ nl)"

fun context_loop :: "context_entry list \<Rightarrow> nat \<Rightarrow> string \<Rightarrow> string" where
  "context_loop [] index prompt = prompt"
| "context_loop (c # rest) index prompt =
     context_loop rest (index + 1)
       ((prompt @ ''[Document '' @ string_of_nat (index + 1) @ '': '' @ title c @ '']'' @ nl)
          @ c_content c @ nl @ nl)"

definition constructPrompt :: "string \<Rightarrow> context_entry list \<Rightarrow> history_msg list \<Rightarrow> string" where
  "constructPrompt userQuery context conversationHistory =
     (let prompt = system_instructions;
          prompt =
            (if length conversationHistory > 0 then
               history_loop (js_slice_from conversationHistory (- 6))
                 (prompt @ ''=== CONVERSATION HISTORY ==='' @ nl) @ nl
             else prompt);
          prompt =
            (if length context > 0 then
               context_loop context 0 (prompt @ ''=== RELEVANT CONTEXT ==='' @ nl)
                 @ ''=== END OF CONTEXT ==='' @ nl @ nl
             else prompt)
      in prompt @ ''=== USER QUESTION ==='' @ nl @ userQuery
           @ nl @ nl @ ''=== YOUR RESPONSE ==='' @ nl)"



section \<open>Properties of the LLM gateway\<close>

lemma key_supported: "getCurrentApiKey cfg \<noteq> [] \<Longrightarrow> supported (provider cfg)"
  by (auto simp: getCurrentApiKey_def supported_def split: if_splits)

lemma makeAPICall_fails:
  assumes "provider cfg \<noteq> ''mock''" and "supported (provider cfg)" and "network w k = Fails m"
  shows "makeAPICall cfg w k prompt st = (Rejected (Error m), st)"
  using assms by (simp add: makeAPICall_def)

lemma makeAPICall_succeeds:
  assumes "provider cfg \<noteq> ''mock''" and "supported (provider cfg)"
    and "network w k = Succeeds c t"
  shows "makeAPICall cfg w k prompt st =
     (Resolved \<lparr> r_content = c, r_tokensUsed = t, r_model = getCurrentModel cfg,
                 r_provider = provider cfg, fallback = False \<rparr>,
      st\<lparr>totalTokensUsed := totalTokensUsed st + t, requestCount := requestCount st + 1\<rparr>)"
  using assms by (simp add: makeAPICall_def)

lemma string_of_nat_3: "string_of_nat 3 = ''3''"
  by code_simp

lemma upt_1_3: "[Suc 0..<3] = [Suc 0, 2]"
  by (simp add: upt_rec)

lemma upper_gemini: "toUpperCase ''gemini'' = ''GEMINI''"
  by code_simp

text \<open>
  The retry loop from attempt number \<open>attempt\<close> on, when that attempt and all later ones
  fail: it goes on to attempt \<open>maxRetries\<close>, with a backoff after each attempt but the last,
  and then rejects.
\<close>

lemma tryCall_all_fail:
  assumes real: "provider cfg \<noteq> ''mock''" and sup: "supported (provider cfg)"
    and fails: "\<forall>k. attempt \<le> k \<and> k \<le> maxRetries cfg \<longrightarrow> network w k = Fails (msg k)"
    and le: "attempt \<le> maxRetries cfg"
  shows "tryCall cfg w prompt attempt st =
     (Rejected (Error (''LLM API failed after '' @ string_of_nat (maxRetries cfg)
                        @ '' attempts: '' @ msg (maxRetries cfg))),
      st\<lparr>trace := trace st
           @ concat (map (\<lambda>k. [ApiCall k, Backoff (retryDelay cfg * 2 ^ (k - 1))])
                       [attempt..<maxRetries cfg])
           @ [ApiCall (maxRetries cfg)]\<rparr>)"
  using fails le
proof (induction "maxRetries cfg - attempt" arbitrary: attempt st)
  case 0
  then have eq: "attempt = maxRetries cfg" by simp
  have "network w attempt = Fails (msg attempt)" using 0 by simp
  then show ?case
    using real sup eq by (subst tryCall.simps) (simp add: makeAPICall_fails)
next
  case (Suc d)
  then have lt: "attempt < maxRetries cfg" by simp
  have here: "network w attempt = Fails (msg attempt)" using Suc.prems by simp
  have step: "tryCall cfg w prompt attempt st =
      tryCall cfg w prompt (attempt + 1)
        (st\<lparr>trace := trace st @ [ApiCall attempt, Backoff (retryDelay cfg * 2 ^ (attempt - 1))]\<rparr>)"
    using real sup here lt by (subst tryCall.simps) (simp add: makeAPICall_fails)
  have d: "d = maxRetries cfg - (attempt + 1)" using Suc.hyps(2) by simp
  have later: "\<forall>k. attempt + 1 \<le> k \<and> k \<le> maxRetries cfg \<longrightarrow> network w k = Fails (msg k)"
    using Suc.prems by simp
  have le': "attempt + 1 \<le> maxRetries cfg" using lt by simp
  have split: "[attempt..<maxRetries cfg] = attempt # [attempt + 1..<maxRetries cfg]"
    using lt by (simp add: upt_conv_Cons)
  show ?case
    unfolding step Suc.hyps(1)[OF d later le'] split by simp
qed

text \<open>
  What the gateway does when the key of the active provider is set: the retry loop never
  throws, so \<^verbatim>\<open>callLLMWithFallback\<close> always resolves, with the fallback response
  whenever \<^verbatim>\<open>callLLM\<close> rejects.
\<close>

lemma tryCall_not_Thrown:
  assumes "supported (provider cfg)"
  shows "fst (tryCall cfg w prompt attempt st) \<noteq> Thrown e"
proof (induction cfg w prompt attempt st rule: tryCall.induct)
  case (1 cfg w prompt attempt st)
  show ?case
    by (subst tryCall.simps) (use 1 in \<open>auto split: prod.splits completion.splits\<close>)
qed

theorem callLLMWithFallback_resolves:
  assumes "getCurrentApiKey cfg \<noteq> []"
  shows "\<exists>r st'. callLLMWithFallback cfg w prompt st = (Resolved r, st')"
proof -
  obtain c st' where c: "tryCall cfg w prompt 1 st = (c, st')" by (cases "tryCall cfg w prompt 1 st")
  show ?thesis
  proof (cases c)
    case (Thrown e)
    with c tryCall_not_Thrown [OF key_supported [OF assms], of w prompt 1 st e] show ?thesis by simp
  next
    case (Rejected e)
    with c assms show ?thesis by (simp add: callLLMWithFallback_def callLLM_def)
  next
    case (Resolved r)
    with c assms show ?thesis by (simp add: callLLMWithFallback_def callLLM_def)
  qed
qed

lemma callLLMWithFallback_on_rejection:
  assumes "callLLM cfg w prompt st = (Rejected e, st')"
  shows "\<exists>r. callLLMWithFallback cfg w prompt st = (Resolved r, st')
           \<and> r_provider r = ''fallback'' \<and> r_tokensUsed r = 0 \<and> fallback r
           \<and> r = generateFallbackResponse (err_message e)"
  using assms by (simp add: callLLMWithFallback_def generateFallbackResponse_def)

text \<open>
  The counters over one call: a mock call counts one request and no tokens; a real call
  whose first attempt succeeds counts its tokens once and the request twice.
\<close>

lemma callLLM_mock_counts_request:
  assumes "provider cfg = ''mock''"
  shows "callLLM cfg w prompt st =
     (Resolved \<lparr> r_content = generateMockResponse w prompt, r_tokensUsed = 0,
                 r_model = ''mock-model'', r_provider = ''mock'', fallback = False \<rparr>,
      st\<lparr>requestCount := requestCount st + 1,
         trace := trace st @ [ApiCall 1, MockDelay 500]\<rparr>)"
  using assms by (simp add: callLLM_def getCurrentApiKey_def tryCall.simps makeAPICall_def)

lemma callLLM_first_attempt_succeeds:
  assumes "getCurrentApiKey cfg \<noteq> []" and "provider cfg \<noteq> ''mock''"
    and "network w 1 = Succeeds c t"
  shows "callLLM cfg w prompt st =
     (Resolved \<lparr> r_content = c, r_tokensUsed = t, r_model = getCurrentModel cfg,
                 r_provider = provider cfg, fallback = False \<rparr>,
      st\<lparr>totalTokensUsed := totalTokensUsed st + t, requestCount := requestCount st + 2,
         trace := trace st @ [ApiCall 1]\<rparr>)"
  using assms key_supported [OF assms(1)]
  by (simp add: callLLM_def tryCall.simps makeAPICall_succeeds)

theorem callLLMWithFallback_resolves_witness:
  "\<exists>r st'. callLLMWithFallback (config (env_unset\<lparr>GEMINI_API_KEY := Some ''k''\<rparr>))
              \<lparr>network = (\<lambda>k. Fails ''Request timeout''), generateMockResponse = id\<rparr>
              ''hello'' state0 = (Resolved r, st')"
  using callLLMWithFallback_resolves
    [of "config (env_unset\<lparr>GEMINI_API_KEY := Some ''k''\<rparr>)"
        "\<lparr>network = (\<lambda>k. Fails ''Request timeout''), generateMockResponse = id\<rparr>"
        "''hello''" state0]
  by (simp add: config_def env_unset_def env_or_def getCurrentApiKey_def)


text \<open>
  C1. The claim: \<^verbatim>\<open>callLLMWithFallback\<close> never hands an error to its caller, also when the
  API key of the active provider is missing. The code at that input: with no environment
  variable set the provider is \<^verbatim>\<open>gemini\<close> and its key is empty, \<^verbatim>\<open>callLLM\<close> throws
  before it returns a promise, and the exception leaves \<^verbatim>\<open>callLLMWithFallback\<close>: no
  fallback response, for every prompt.
\<close>

theorem callLLMWithFallback_throws_without_key:
  "callLLMWithFallback (config env_unset) w prompt st =
     (Thrown (Error ''API key is required. Set GEMINI_API_KEY environment variable.''), st)"
  by (simp add: callLLMWithFallback_def callLLM_def getCurrentApiKey_def config_def
        env_unset_def env_or_def upper_gemini)

text \<open>
  C2. The claim: one successful call of a real provider adds exactly 1 to
  \<^verbatim>\<open>requestCount\<close>. The code at a call whose first attempt succeeds with 7 tokens:
  \<^verbatim>\<open>makeAPICall\<close> counts the request and the handler of \<^verbatim>\<open>callLLM\<close> counts it again, so
  the counter goes from 0 to 2.
\<close>

theorem callLLM_counts_request_twice:
  "callLLM (config (env_unset\<lparr>GEMINI_API_KEY := Some ''k''\<rparr>))
     \<lparr>network = (\<lambda>k. Succeeds ''answer'' 7), generateMockResponse = id\<rparr> ''hello'' state0
   = (Resolved \<lparr> r_content = ''answer'', r_tokensUsed = 7, r_model = ''gemini-1.0-pro'',
                 r_provider = ''gemini'', fallback = False \<rparr>,
      \<lparr> totalTokensUsed = 7, requestCount = 2, trace = [ApiCall 1] \<rparr>)"
  by (simp add: callLLM_def tryCall.simps makeAPICall_def supported_def getCurrentApiKey_def
        getCurrentModel_def config_def env_unset_def env_or_def state0_def)

text \<open>
  C3. When every attempt of a call on a real provider fails, \<^verbatim>\<open>callLLM\<close> makes the
  attempts \<open>1, ..., maxRetries\<close> one after the other, waits \<open>retryDelay * 2 ^ (k - 1)\<close>
  milliseconds between attempt \<open>k\<close> and attempt \<open>k + 1\<close>, and after the last attempt
  rejects with an error that wraps the message of the last failure. The counters are
  not touched.
\<close>

theorem callLLM_exhausts_retries:
  assumes key: "getCurrentApiKey cfg \<noteq> []"
    and real: "provider cfg \<noteq> ''mock''"
    and pos: "1 \<le> maxRetries cfg"
    and fails: "\<forall>k. 1 \<le> k \<and> k \<le> maxRetries cfg \<longrightarrow> network w k = Fails (msg k)"
  shows "callLLM cfg w prompt st =
     (Rejected (Error (''LLM API failed after '' @ string_of_nat (maxRetries cfg)
                        @ '' attempts: '' @ msg (maxRetries cfg))),
      st\<lparr>trace := trace st
           @ concat (map (\<lambda>k. [ApiCall k, Backoff (retryDelay cfg * 2 ^ (k - 1))])
                       [1..<maxRetries cfg])
           @ [ApiCall (maxRetries cfg)]\<rparr>)"
  using key tryCall_all_fail [OF real key_supported [OF key] fails pos]
  by (simp add: callLLM_def)

text \<open>
  The instance of the source's configuration (\<open>maxRetries = 3\<close>, \<open>retryDelay = 1000\<close>):
  three attempts, with waits of 1000 ms and 2000 ms between them.
\<close>

theorem callLLM_exhausts_retries_witness:
  "getCurrentApiKey (config (env_unset\<lparr>GEMINI_API_KEY := Some ''k''\<rparr>)) \<noteq> []
   \<and> provider (config (env_unset\<lparr>GEMINI_API_KEY := Some ''k''\<rparr>)) \<noteq> ''mock''
   \<and> 1 \<le> maxRetries (config (env_unset\<lparr>GEMINI_API_KEY := Some ''k''\<rparr>))
   \<and> callLLM (config (env_unset\<lparr>GEMINI_API_KEY := Some ''k''\<rparr>))
        \<lparr>network = (\<lambda>k. Fails ''Request timeout''), generateMockResponse = id\<rparr> ''hello'' state0
     = (Rejected (Error ''LLM API failed after 3 attempts: Request timeout''),
        \<lparr> totalTokensUsed = 0, requestCount = 0,
          trace = [ApiCall 1, Backoff 1000, ApiCall 2, Backoff 2000, ApiCall 3] \<rparr>)"
  using callLLM_exhausts_retries
    [of "config (env_unset\<lparr>GEMINI_API_KEY := Some ''k''\<rparr>)"
        "\<lparr>network = (\<lambda>k. Fails ''Request timeout''), generateMockResponse = id\<rparr>"
        "\<lambda>k. ''Request timeout''" "''hello''" state0]
  by (simp add: config_def env_unset_def env_or_def getCurrentApiKey_def state0_def
        string_of_nat_3 upt_1_3)

section \<open>Properties of the conversation store\<close>

lemma keep_last_length: "length (keep_last n xs) = min n (length xs)"
  by (simp add: keep_last_def)

lemma keep_last_append: "keep_last n (keep_last n xs @ ys) = keep_last n (xs @ ys)"
  by (cases "length xs \<le> n") (auto simp: keep_last_def add.commute)

lemma keep_last_long: "n \<le> length ys \<Longrightarrow> keep_last n (xs @ ys) = keep_last n ys"
  by (simp add: keep_last_def)

lemma addMessage_Inr:
  assumes "addMessage now mid sid role content md st = (Inr s', st')"
  shows "\<exists>s. st sid = Some s \<and> \<not> isSessionExpired now s
           \<and> messages s' = keep_last maxHistoryLength (messages s @ [mk_message now mid role content md])
           \<and> st' = st(sid \<mapsto> s')"
  using assms
  by (auto simp: addMessage_def getSession_def splice0_def Let_def keep_last_def
      split: option.splits if_splits)

lemma addMessages_messages:
  assumes "addMessages sid (c # cs) st = Inr st'" and "st sid = Some s"
  shows "\<exists>s'. st' sid = Some s'
           \<and> messages s' = keep_last maxHistoryLength (messages s @ map message_of (c # cs))"
  using assms
proof (induction cs arbitrary: c st s)
  case Nil
  from Nil.prems(1) obtain s1 where
    step: "addMessage (call_now c) (call_mid c) sid (call_role c) (call_content c) (call_metadata c) st
             = (Inr s1, st')"
    by (auto split: prod.splits sum.splits)
  from addMessage_Inr [OF step] Nil.prems(2) show ?case
    by (auto simp: message_of_def)
next
  case (Cons d ds)
  from Cons.prems(1) obtain s1 st1 where
    step: "addMessage (call_now c) (call_mid c) sid (call_role c) (call_content c) (call_metadata c) st
             = (Inr s1, st1)"
    and rest: "addMessages sid (d # ds) st1 = Inr st'"
    by (auto split: prod.splits sum.splits)
  from addMessage_Inr [OF step] Cons.prems(2)
  have m1: "messages s1 = keep_last maxHistoryLength (messages s @ [message_of c])"
    and st1: "st1 sid = Some s1"
    by (auto simp: message_of_def)
  from Cons.IH [OF rest st1] obtain s' where
    s': "st' sid = Some s'"
    and ms: "messages s' = keep_last maxHistoryLength (messages s1 @ map message_of (d # ds))"
    by blast
  have "messages s' = keep_last maxHistoryLength (messages s @ map message_of (c # d # ds))"
    unfolding ms m1 keep_last_append by simp
  with s' show ?case by blast
qed

lemma addMessages_live:
  assumes "addMessages sid (c # cs) st = Inr st'"
  shows "\<exists>s. st sid = Some s"
proof -
  from assms obtain s1 st1 where
    "addMessage (call_now c) (call_mid c) sid (call_role c) (call_content c) (call_metadata c) st
             = (Inr s1, st1)"
    by (auto split: prod.splits sum.splits)
  from addMessage_Inr [OF this] show ?thesis by blast
qed

text \<open>
  C5. After a run of successful \<^verbatim>\<open>addMessage\<close> calls on one session (at least one call),
  the session holds at most \<open>maxHistoryLength = 6\<close> messages; after more than 6 calls it
  holds exactly the messages of the last 6 calls, oldest first.
\<close>

theorem addMessage_keeps_six_most_recent:
  assumes run: "addMessages sid calls st = Inr st'" and ne: "calls \<noteq> []"
  shows "\<exists>s'. st' sid = Some s'
           \<and> length (messages s') \<le> maxHistoryLength
           \<and> (length calls > 6 \<longrightarrow>
                 messages s' = map message_of (drop (length calls - 6) calls)
                 \<and> length (messages s') = 6)"
proof -
  from ne obtain c cs where calls: "calls = c # cs" by (cases calls) auto
  from addMessages_live run calls obtain s where s: "st sid = Some s" by blast
  from addMessages_messages [OF run [unfolded calls] s] obtain s' where
    s': "st' sid = Some s'"
    and ms: "messages s' = keep_last maxHistoryLength (messages s @ map message_of calls)"
    unfolding calls by blast
  have len: "length (messages s') \<le> maxHistoryLength"
    unfolding ms by (simp add: keep_last_length)
  have "messages s' = map message_of (drop (length calls - 6) calls) \<and> length (messages s') = 6"
    if "length calls > 6"
  proof -
    have "messages s' = keep_last 6 (map message_of calls)"
      unfolding ms maxHistoryLength_def using that by (simp add: keep_last_long)
    then show ?thesis using that by (simp add: keep_last_def drop_map)
  qed
  with s' len show ?thesis by blast
qed


theorem addMessage_keeps_six_most_recent_witness:
  "\<exists>st' s'. addMessages ''s1'' (map demo_call [1, 2, 3, 4, 5, 6, 7]) demo_store = Inr st'
      \<and> st' ''s1'' = Some s'
      \<and> messages s' = map message_of (map demo_call [2, 3, 4, 5, 6, 7])
      \<and> length (messages s') = 6"
proof -
  have "\<exists>st'. addMessages ''s1'' (map demo_call [1, 2, 3, 4, 5, 6, 7]) demo_store = Inr st'"
    by (simp add: addMessage_def getSession_def demo_store_def demo_session_def demo_call_def
          isSessionExpired_def sessionTimeout_def maxHistoryLength_def splice0_def Let_def)
  then obtain st' where
    run: "addMessages ''s1'' (map demo_call [1, 2, 3, 4, 5, 6, 7]) demo_store = Inr st'" ..
  from addMessage_keeps_six_most_recent [OF run] show ?thesis
    using run by auto
qed

text \<open>
  C10. For a session id that is not in the store, or whose session is expired at the time
  of the call, \<^verbatim>\<open>getConversationHistory\<close> returns the empty list, whatever the limit; no
  branch of it throws. The store it leaves has no session under that id.
\<close>

theorem getConversationHistory_absent_or_expired:
  assumes "st sessionId = None \<or> (\<exists>s. st sessionId = Some s \<and> isSessionExpired now s)"
  shows "getConversationHistory now sessionId limit st = ([], st(sessionId := None))"
  using assms by (auto simp: getConversationHistory_def getSession_def fun_upd_idem)

theorem getConversationHistory_absent_or_expired_witness:
  "getConversationHistory 3600001 ''s1'' None demo_store = ([], demo_store(''s1'' := None))
   \<and> getConversationHistory 3600001 ''s2'' (Some 3) demo_store = ([], demo_store(''s2'' := None))"
  using getConversationHistory_absent_or_expired [of demo_store "''s1''" 3600001 None]
    getConversationHistory_absent_or_expired [of demo_store "''s2''" 3600001 "Some 3"]
  by (simp add: demo_store_def demo_session_def isSessionExpired_def sessionTimeout_def)

section \<open>Properties of similarity and prompt assembly\<close>

lemma cosine_loop_exact_sums:
  "length as = length bs \<Longrightarrow>
   cosine_loop_exact as bs (d, na, nb) =
     (d + (\<Sum>(a, b)\<leftarrow>zip as bs. a * b), na + (\<Sum>a\<leftarrow>as. a * a), nb + (\<Sum>b\<leftarrow>bs. b * b))"
  by (induction as bs arbitrary: d na nb rule: list_induct2) (auto simp: algebra_simps)

lemma calculateCosineSimilarity_exact_eq:
  assumes "length as = length bs"
  shows "calculateCosineSimilarity_exact as bs =
     Inr (if sqrt (\<Sum>a\<leftarrow>as. a * a) = 0 \<or> sqrt (\<Sum>b\<leftarrow>bs. b * b) = 0 then 0
          else (\<Sum>(a, b)\<leftarrow>zip as bs. a * b)
                 / (sqrt (\<Sum>a\<leftarrow>as. a * a) * sqrt (\<Sum>b\<leftarrow>bs. b * b)))"
  using assms by (simp add: calculateCosineSimilarity_exact_def cosine_loop_exact_sums Let_def)

lemma format_context_order:
  "map order (format_context rs index) = map (\<lambda>(k, r). k + 1) (enumerate index rs)"
  by (induction rs arbitrary: index) auto

lemma js_slice_from_last: "0 < n \<Longrightarrow> js_slice_from xs (- int n) = keep_last n xs"
  by (auto simp: js_slice_from_def rel_index_def keep_last_def nat_diff_distrib' max_def)

lemma history_loop_concat:
  "history_loop msgs prompt =
     prompt @ concat (map (\<lambda>msg. (if hm_role msg = ''user'' then ''User'' else ''Assistant'')
                                  @ '': '' @ hm_content msg @ nl) msgs)"
  by (induction msgs arbitrary: prompt) auto

lemma context_loop_concat:
  "context_loop cs index prompt =
     prompt @ concat (map (\<lambda>(k, c). ''[Document '' @ string_of_nat (k + 1) @ '': '' @ title c
                                      @ '']'' @ nl @ c_content c @ nl @ nl)
                        (enumerate index cs))"
  by (induction cs arbitrary: index prompt) auto

text \<open>
  C8. The prompt is the system instructions, then the history section, then the context
  section, then the user question. The history section is there exactly when the history
  is not empty, and lists the last 6 entries, oldest first, one \<open>Role: content\<close> line
  each. The context section is there exactly when the context is not empty, and has for
  the entry at position \<open>k\<close> (counted from 1) the line \<open>[Document k: title]\<close> followed by
  its content. For a context built by \<^verbatim>\<open>retrieveContext\<close> that position is the entry's
  \<open>order\<close> field (\<open>format_context_order\<close>).
\<close>

theorem constructPrompt_sections:
  "constructPrompt userQuery context conversationHistory =
     system_instructions
     @ (if conversationHistory = [] then []
        else ''=== CONVERSATION HISTORY ==='' @ nl
             @ concat (map (\<lambda>msg. (if hm_role msg = ''user'' then ''User'' else ''Assistant'')
                                    @ '': '' @ hm_content msg @ nl)
                         (keep_last 6 conversationHistory))
             @ nl)
     @ (if context = [] then []
        else ''=== RELEVANT CONTEXT ==='' @ nl
             @ concat (map (\<lambda>(k, c). ''[Document '' @ string_of_nat (k + 1) @ '': '' @ title c
                                        @ '']'' @ nl @ c_content c @ nl @ nl)
                         (enumerate 0 context))
             @ ''=== END OF CONTEXT ==='' @ nl @ nl)
     @ ''=== USER QUESTION ==='' @ nl @ userQuery @ nl @ nl @ ''=== YOUR RESPONSE ==='' @ nl"
proof -
  have h: "js_slice_from conversationHistory (- 6) = keep_last 6 conversationHistory"
    using js_slice_from_last [of 6 conversationHistory] by simp
  show ?thesis
    unfolding constructPrompt_def Let_def history_loop_concat context_loop_concat h length_greater_0_conv
    by (cases "conversationHistory = []"; cases "context = []"; simp only: if_True if_False not_False_eq_True not_True_eq_False append_assoc append_Nil append_Nil2 simp_thms)
qed

section \<open>Properties of the similarity search\<close>



lemma similarities_scores:
  "similarities q cs = Inr sims \<Longrightarrow>
   \<forall>r\<in>set sims. calculateCosineSimilarity_exact q (embedding (chunk r)) = Inr (similarity r)"
  by (induction cs arbitrary: sims) (auto split: sum.splits)

lemma similarities_defined:
  "(\<exists>sims. similarities q cs = Inr sims) \<longleftrightarrow> (\<forall>c\<in>set cs. length (embedding c) = length q)"
proof (induction cs)
  case Nil
  then show ?case by simp
next
  case (Cons c cs)
  show ?case
  proof (cases "length q = length (embedding c)")
    case True
    from calculateCosineSimilarity_exact_eq [OF True] Cons show ?thesis
      using True by (auto split: sum.splits)
  next
    case False
    then show ?thesis by (auto simp: calculateCosineSimilarity_exact_def)
  qed
qed







section \<open>Properties of the chunker\<close>

lemma split_space_nonempty: "split_space s \<noteq> []"
  by (induction s) (auto split: list.splits)

lemma join_split: "join_space (split_space s) = s"
proof (induction s)
  case Nil
  then show ?case by simp
next
  case (Cons c cs)
  show ?case
  proof (cases "c = CHR '' ''")
    case True
    with Cons split_space_nonempty [of cs] show ?thesis
      by (cases "split_space cs") auto
  next
    case False
    with Cons split_space_nonempty [of cs] show ?thesis
      by (cases "split_space cs" rule: join_space.cases) auto
  qed
qed

lemma js_slice_window:
  assumes "0 \<le> i" and "i \<le> j"
  shows "js_slice xs i j = take (nat j - nat i) (drop (nat i) xs)"
  using assms by (auto simp: js_slice_def rel_index_def Let_def min_def)

lemma js_slice_to_end:
  assumes "0 \<le> i" and "int (length xs) \<le> j"
  shows "js_slice xs i j = drop (nat i) xs"
  using assms by (auto simp: js_slice_def rel_index_def Let_def min_def)

lemma chunk_loop_run:
  assumes stride: "0 < chunkSize - overlap" and ov: "0 \<le> overlap"
    and i0: "0 \<le> i" and iw: "i < int (length words)"
    and last: "int (length words) \<le> i + int m * (chunkSize - overlap) + chunkSize"
    and before: "0 < m \<longrightarrow> i + (int m - 1) * (chunkSize - overlap) + chunkSize < int (length words)"
  shows "chunk_loop words chunkSize overlap i chunks =
     Some (chunks @ map (\<lambda>k. join_space (js_slice words (i + int k * (chunkSize - overlap))
                                               (i + int k * (chunkSize - overlap) + chunkSize)))
                       [0..<Suc m])"
  using i0 iw last before
proof (induction m arbitrary: i chunks)
  case 0
  then show ?case by (subst chunk_loop.simps) simp
next
  case (Suc m)
  let ?s = "chunkSize - overlap"
  let ?win = "\<lambda>j. join_space (js_slice words j (j + chunkSize))"
  from Suc.prems(4) have far: "i + int m * ?s + chunkSize < int (length words)" by simp
  have ms: "0 \<le> int m * ?s" using stride by simp
  from far ms have nobreak: "\<not> int (length words) \<le> i + chunkSize" by linarith
  have step: "chunk_loop words chunkSize overlap i chunks =
                chunk_loop words chunkSize overlap (i + ?s) (chunks @ [?win i])"
    using Suc.prems(2) nobreak by (subst chunk_loop.simps) simp
  have i0': "0 \<le> i + ?s" using Suc.prems(1) stride by linarith
  have iw': "i + ?s < int (length words)" using nobreak ov by linarith
  have last': "int (length words) \<le> i + ?s + int m * ?s + chunkSize"
    using Suc.prems(3) by (simp add: algebra_simps)
  have before': "0 < m \<longrightarrow> i + ?s + (int m - 1) * ?s + chunkSize < int (length words)"
    using far by (simp add: algebra_simps)
  have shift: "map (\<lambda>k. ?win (i + int k * ?s)) [0..<Suc (Suc m)]
                 = ?win i # map (\<lambda>k. ?win (i + ?s + int k * ?s)) [0..<Suc m]"
  proof -
    have "[0..<Suc (Suc m)] = 0 # map Suc [0..<Suc m]"
      by (simp only: map_Suc_upt upt_conv_Cons [of 0 "Suc (Suc m)"] zero_less_Suc)
    then show ?thesis by (simp add: algebra_simps comp_def del: upt_Suc)
  qed
  show ?case
    unfolding step Suc.IH [OF i0' iw' last' before'] shift by simp
qed


lemma chunk_count_arith:
  fixes w :: int
  assumes "300 < w"
  defines "m \<equiv> (w - 51) div 250"
  shows "0 < m" and "w \<le> m * 250 + 300" and "(m - 1) * 250 + 300 < w"
    and "m + 1 = \<lceil>(real_of_int w - 50) / 250\<rceil>"
proof -
  define r where "r = (w - 51) mod 250"
  have r: "0 \<le> r" "r < 250" by (simp_all add: r_def)
  have "m * 250 + r = w - 51" unfolding m_def r_def by (rule div_mult_mod_eq)
  then have weq: "w = 250 * m + r + 51" by simp
  show pos: "0 < m" using weq r assms(1) by linarith
  show "w \<le> m * 250 + 300" using weq r by linarith
  show "(m - 1) * 250 + 300 < w" using weq r by (simp add: algebra_simps)
  have lo: "250 * m < w - 50" using weq r by linarith
  have hi: "w - 50 \<le> 250 * (m + 1)" using weq r by (simp add: algebra_simps)
  from lo have "real_of_int (250 * m) < real_of_int (w - 50)"
    by (simp only: of_int_less_iff)
  then have lo': "real_of_int m * 250 < real_of_int w - 50" by simp
  from hi have "real_of_int (w - 50) \<le> real_of_int (250 * (m + 1))"
    by (simp only: of_int_le_iff)
  then have hi': "real_of_int w - 50 \<le> (real_of_int m + 1) * 250" by simp
  have "\<lceil>(real_of_int w - 50) / 250\<rceil> = m + 1"
  proof (rule ceiling_unique)
    have "real_of_int m < (real_of_int w - 50) / 250"
      using lo' by (subst pos_less_divide_eq) simp_all
    then show "real_of_int (m + 1) - 1 < (real_of_int w - 50) / 250" by simp
    have "(real_of_int w - 50) / 250 \<le> real_of_int m + 1"
      using hi' by (subst pos_divide_le_eq) simp_all
    then show "(real_of_int w - 50) / 250 \<le> real_of_int (m + 1)" by simp
  qed
  then show "m + 1 = \<lceil>(real_of_int w - 50) / 250\<rceil>" by simp
qed

text \<open>
  C4. A text of \<open>w > 300\<close> words, chunked with size 300 and overlap 50: \<^verbatim>\<open>chunkText\<close>
  returns, the number of chunks is the ceiling of \<open>(w - 50) / 250\<close>, and the last chunk
  starts at word \<open>250 * (n - 1)\<close> for \<open>n\<close> chunks and runs to the end of the word list: its
  window ends at index \<open>250 * (n - 1) + 300\<close>, which is at least \<open>w\<close>.
\<close>

theorem chunkText_count:
  assumes w: "int (length (split_space text)) = w" and long: "300 < w"
  shows "\<exists>cs. chunkText text 300 50 = Some cs
           \<and> int (length cs) = \<lceil>(real_of_int w - 50) / 250\<rceil>
           \<and> last cs = join_space (drop (250 * (length cs - 1)) (split_space text))
           \<and> w \<le> 250 * (int (length cs) - 1) + 300"
proof -
  define m where "m = nat ((w - 51) div 250)"
  let ?words = "split_space text"
  let ?win = "\<lambda>k. join_space (js_slice ?words (0 + int k * (300 - 50))
                                          (0 + int k * (300 - 50) + 300))"
  note ar = chunk_count_arith [OF long]
  have im: "int m = (w - 51) div 250" using ar(1) by (simp add: m_def)
  have run: "chunk_loop ?words 300 50 0 [] = Some ([] @ map ?win [0..<Suc m])"
  proof (rule chunk_loop_run)
    show "0 < (300::int) - 50" and "0 \<le> (50::int)" and "0 \<le> (0::int)" by simp_all
    show "0 < int (length ?words)" using w long by simp
    show "int (length ?words) \<le> 0 + int m * (300 - 50) + 300"
      using ar(2) by (simp add: im w)
    show "0 < m \<longrightarrow> 0 + (int m - 1) * (300 - 50) + 300 < int (length ?words)"
      using ar(3) by (simp add: im w)
  qed
  let ?cs = "map ?win [0..<Suc m]"
  have res: "chunkText text 300 50 = Some ?cs"
    using run by (simp add: chunkText_def)
  have len: "int (length ?cs) = int m + 1" by simp
  have count: "int (length ?cs) = \<lceil>(real_of_int w - 50) / 250\<rceil>"
    unfolding len im using ar(4) by simp
  have reach: "w \<le> 250 * (int (length ?cs) - 1) + 300"
    unfolding len im using ar(2) by simp
  have "last ?cs = ?win m"
    by (simp add: last_map del: upt_Suc)
  also have "\<dots> = join_space (drop (nat (int m * 250)) ?words)"
  proof -
    have "js_slice ?words (0 + int m * (300 - 50)) (0 + int m * (300 - 50) + 300)
            = drop (nat (0 + int m * (300 - 50))) ?words"
    proof (rule js_slice_to_end)
      show "0 \<le> 0 + int m * (300 - 50)" by simp
      show "int (length ?words) \<le> 0 + int m * (300 - 50) + 300"
        using ar(2) by (simp add: im w)
    qed
    then show ?thesis by simp
  qed
  also have "nat (int m * 250) = 250 * (length ?cs - 1)"
    by (simp add: nat_mult_distrib)
  finally have lastc: "last ?cs = join_space (drop (250 * (length ?cs - 1)) ?words)" .
  from res count lastc reach show ?thesis by blast
qed


lemma split_space_word:
  "split_space (''w '' @ t) = ''w'' # split_space t"
  by simp

lemma split_space_repeat:
  "length (split_space (concat (replicate n ''w '') @ ''w'')) = Suc n"
proof (induction n)
  case 0
  show ?case by simp
next
  case (Suc n)
  have "concat (replicate (Suc n) ''w '') @ ''w'' = ''w '' @ (concat (replicate n ''w '') @ ''w'')"
    by simp
  then show ?case
    using Suc by (simp only: split_space_word length_Cons)
qed

theorem chunkText_count_witness:
  "int (length (split_space long_text)) = 301
   \<and> (\<exists>cs. chunkText long_text 300 50 = Some cs \<and> length cs = 2
          \<and> last cs = join_space (drop 250 (split_space long_text)))"
proof -
  have w: "int (length (split_space long_text)) = 301"
    unfolding long_text_def split_space_repeat by simp
  from chunkText_count [OF w] show ?thesis
    using w by auto
qed

text \<open>
  C9. The claim: with \<open>overlap \<ge> size\<close> the chunker fails with a configuration error
  rather than producing output. The code has no check of its arguments: at size 5 and
  overlap 5 a two-word text comes back as one chunk.
\<close>

theorem chunkText_returns_for_overlap_ge_size:
  "(5::int) \<ge> 5 \<and> chunkText ''hello world'' 5 5 = Some [''hello world'']"
  by (simp add: chunkText_def chunk_loop.simps js_slice_def rel_index_def)

text \<open>
  C9, as the code has it: with \<open>overlap \<ge> size\<close>, a text of at most \<open>size\<close> words is
  returned whole as the only chunk; the first round of the loop reaches the end of the
  word list and stops.
\<close>

theorem chunkText_single_chunk:
  assumes "overlap \<ge> chunkSize" and "int (length (split_space text)) \<le> chunkSize"
  shows "chunkText text chunkSize overlap = Some [text]"
proof -
  have pos: "0 < int (length (split_space text))"
    using split_space_nonempty [of "text"] by simp
  have "js_slice (split_space text) 0 (0 + chunkSize) = drop (nat 0) (split_space text)"
    by (rule js_slice_to_end) (use assms(2) in simp_all)
  then have "join_space (js_slice (split_space text) 0 (0 + chunkSize)) = text"
    by (simp add: join_split)
  then show ?thesis
    unfolding chunkText_def using pos assms(2) by (subst chunk_loop.simps) simp
qed

theorem chunkText_single_chunk_witness:
  "(5::int) \<ge> 5 \<and> int (length (split_space ''hello world'')) \<le> 5
   \<and> chunkText ''hello world'' 5 5 = Some [''hello world'']"
  using chunkText_single_chunk [of 5 5 "''hello world''"] by simp

text \<open>
  With \<open>overlap \<ge> size\<close> and more than \<open>size\<close> words the loop variable never moves
  forward, and the loop never ends.
\<close>

lemma chunk_loop_Some_bounded:
  assumes "chunk_loop words chunkSize overlap i chunks = Some y"
  shows "\<not> (overlap \<ge> chunkSize \<and> chunkSize < int (length words) \<and> words \<noteq> [] \<and> i \<le> 0)"
proof (rule chunk_loop.raw_induct
    [where P = "\<lambda>ws cs ov j acc y. \<not> (ov \<ge> cs \<and> cs < int (length ws) \<and> ws \<noteq> [] \<and> j \<le> 0)",
      OF _ assms])
  fix f :: "string list \<Rightarrow> int \<Rightarrow> int \<Rightarrow> int \<Rightarrow> string list \<Rightarrow> string list option"
  fix ws cs ov j acc y
  assume IH: "\<And>ws cs ov j acc y. f ws cs ov j acc = Some y \<Longrightarrow>
                \<not> (ov \<ge> cs \<and> cs < int (length ws) \<and> ws \<noteq> [] \<and> j \<le> 0)"
    and body: "(if j < int (length ws) then
                  (if j + cs \<ge> int (length ws)
                   then Some (acc @ [join_space (js_slice ws j (j + cs))])
                   else f ws cs ov (j + (cs - ov)) (acc @ [join_space (js_slice ws j (j + cs))]))
                else Some acc) = Some y"
  show "\<not> (ov \<ge> cs \<and> cs < int (length ws) \<and> ws \<noteq> [] \<and> j \<le> 0)"
  proof
    assume inv: "ov \<ge> cs \<and> cs < int (length ws) \<and> ws \<noteq> [] \<and> j \<le> 0"
    then have "0 < length ws" by simp
    then have len: "0 < int (length ws)" by linarith
    from inv len have a: "j < int (length ws)" by linarith
    from inv have b: "\<not> j + cs \<ge> int (length ws)" by linarith
    from inv have next_j: "j + (cs - ov) \<le> 0" by linarith
    from body a b have "f ws cs ov (j + (cs - ov)) (acc @ [join_space (js_slice ws j (j + cs))]) = Some y"
      by simp
    from IH [OF this] inv next_j show False by simp
  qed
qed

lemma chunk_loop_diverges:
  assumes "overlap \<ge> chunkSize" and "chunkSize < int (length words)" and "words \<noteq> []"
    and "i \<le> 0"
  shows "chunk_loop words chunkSize overlap i chunks = None"
proof (cases "chunk_loop words chunkSize overlap i chunks")
  case None
  then show ?thesis .
next
  case (Some y)
  from chunk_loop_Some_bounded [OF Some] assms show ?thesis by simp
qed

theorem chunkText_diverges:
  assumes "overlap \<ge> chunkSize" and "chunkSize < int (length (split_space text))"
  shows "chunkText text chunkSize overlap = None"
  unfolding chunkText_def by (rule chunk_loop_diverges [OF assms split_space_nonempty]) simp

theorem chunkText_diverges_witness:
  "chunkText ''a b c'' 2 2 = None"
  using chunkText_diverges [of 2 2 "''a b c''"] by simp

section \<open>Properties of the cosine similarity on doubles\<close>

lemma rne_between:
  assumes "of_int n - 1 / 2 < x" and "x < of_int n + 1 / 2"
  shows "rne x = n"
proof (cases "of_int n \<le> x")
  case True
  then have f: "\<lfloor>x\<rfloor> = n" using assms(2) by (intro floor_unique) linarith+
  show ?thesis using assms(2) by (simp add: rne_def f Let_def)
next
  case False
  then have f: "\<lfloor>x\<rfloor> = n - 1" using assms(1) by (intro floor_unique) simp_all
  have "1 / 2 < x - of_int (n - 1)" using assms(1) by simp
  then show ?thesis by (simp add: rne_def f Let_def)
qed

lemma rne_of_int [simp]: "rne (of_int n) = n"
  by (rule rne_between) simp_all

lemma exponent_eq:
  assumes "x \<noteq> 0" and "2 powr of_int e \<le> \<bar>x\<bar>" and "\<bar>x\<bar> < 2 powr of_int (e + 1)"
  shows "exponent x = max e (- 1022)"
proof -
  have "\<lfloor>log 2 \<bar>x\<bar>\<rfloor> = e"
    using assms by (subst floor_log_eq_powr_iff) simp_all
  then show ?thesis by (simp add: exponent_def)
qed

lemma round64_eq:
  assumes "x \<noteq> 0" and "2 powr of_int e \<le> \<bar>x\<bar>" and "\<bar>x\<bar> < 2 powr of_int (e + 1)"
    and "q = 2 powr of_int (max e (- 1022) - 52)"
    and "rne (x / q) = n" and "\<bar>q * of_int n\<bar> < 2 ^ 1024"
  shows "round64 x = Num (q * of_int n)"
  using assms(1,4,5,6) exponent_eq [OF assms(1,2,3)]
  by (simp add: round64_def quantum_def Let_def)

lemma powr_neg_numeral: "(2::real) powr (- numeral k) = 1 / 2 ^ numeral k"
  by (simp add: powr_minus inverse_eq_divide)

lemma round64_1: "round64 1 = Num 1"
proof -
  have "round64 1 = Num (1 / 2 ^ 52 * of_int (2 ^ 52))"
  proof (rule round64_eq [where e = 0])
    show "rne (1 / (1 / 2 ^ 52)) = 2 ^ 52" by (rule rne_between) simp_all
  qed (simp_all add: powr_neg_numeral)
  then show ?thesis by simp
qed

lemma round64_25: "round64 25 = Num 25"
proof -
  have "round64 25 = Num (1 / 2 ^ 48 * of_int (25 * 2 ^ 48))"
  proof (rule round64_eq [where e = 4])
    show "rne (25 / (1 / 2 ^ 48)) = 25 * 2 ^ 48" by (rule rne_between) simp_all
  qed (simp_all add: powr_neg_numeral)
  then show ?thesis by simp
qed

lemma round64_26: "round64 26 = Num 26"
proof -
  have "round64 26 = Num (1 / 2 ^ 48 * of_int (26 * 2 ^ 48))"
  proof (rule round64_eq [where e = 4])
    show "rne (26 / (1 / 2 ^ 48)) = 26 * 2 ^ 48" by (rule rne_between) simp_all
  qed (simp_all add: powr_neg_numeral)
  then show ?thesis by simp
qed


lemma sqrt_26_bounds:
  "(5740985595342838 - 1 / 2) / 2 ^ 50 < sqrt 26" "sqrt 26 < (5740985595342838 + 1 / 2) / 2 ^ 50"
  "4 \<le> sqrt 26" "sqrt 26 < 8"
proof -
  show "(5740985595342838 - 1 / 2) / 2 ^ 50 < sqrt 26"
    by (rule real_less_rsqrt) (simp add: power2_eq_square)
  show "sqrt 26 < (5740985595342838 + 1 / 2) / 2 ^ 50"
    by (rule real_less_lsqrt) (simp_all add: power2_eq_square)
  show "4 \<le> sqrt 26" by (rule real_le_rsqrt) simp
  show "sqrt 26 < 8" by (rule real_less_lsqrt) simp_all
qed

lemma round64_sqrt_26: "round64 (sqrt 26) = Num (5740985595342838 / 2 ^ 50)"
proof -
  have "round64 (sqrt 26) = Num (1 / 2 ^ 50 * of_int 5740985595342838)"
  proof (rule round64_eq [where e = 2])
    show "rne (sqrt 26 / (1 / 2 ^ 50)) = 5740985595342838"
    proof (rule rne_between)
      show "of_int 5740985595342838 - 1 / 2 < sqrt 26 / (1 / 2 ^ 50)"
        using sqrt_26_bounds(1) by (simp add: field_simps)
      show "sqrt 26 / (1 / 2 ^ 50) < of_int 5740985595342838 + 1 / 2"
        using sqrt_26_bounds(2) by (simp add: field_simps)
    qed
    show "sqrt 26 \<noteq> 0" by simp
    show "2 powr of_int 2 \<le> \<bar>sqrt 26\<bar>" using sqrt_26_bounds(3) by simp
    show "\<bar>sqrt 26\<bar> < 2 powr of_int (2 + 1)" using sqrt_26_bounds(4) by simp
    show "1 / 2 ^ 50 = (2::real) powr of_int (max 2 (- 1022) - 52)" by (simp add: powr_neg_numeral)
    show "\<bar>1 / 2 ^ 50 * of_int 5740985595342838\<bar> < (2::real) ^ 1024" by simp
  qed
  then show ?thesis by simp
qed

lemma round64_square:
  "round64 (5740985595342838 / 2 ^ 50 * (5740985595342838 / 2 ^ 50)) = Num (7318349394477055 / 2 ^ 48)"
proof -
  let ?x = "5740985595342838 / 2 ^ 50 * (5740985595342838 / 2 ^ 50) :: real"
  have "round64 ?x = Num (1 / 2 ^ 48 * of_int 7318349394477055)"
  proof (rule round64_eq [where e = 4])
    show "rne (?x / (1 / 2 ^ 48)) = 7318349394477055" by (rule rne_between) simp_all
  qed (simp_all add: powr_neg_numeral)
  then show ?thesis by simp
qed

lemma round64_quotient:
  "round64 (26 / (7318349394477055 / 2 ^ 48)) = Num (1 + 1 / 2 ^ 52)"
proof -
  let ?x = "26 / (7318349394477055 / 2 ^ 48) :: real"
  have "round64 ?x = Num (1 / 2 ^ 52 * of_int 4503599627370497)"
  proof (rule round64_eq [where e = 0])
    show "rne (?x / (1 / 2 ^ 52)) = 4503599627370497" by (rule rne_between) simp_all
  qed (simp_all add: powr_neg_numeral)
  then show ?thesis by simp
qed

lemma cosine_loop_folds:
  "length as = length bs \<Longrightarrow>
   cosine_loop as bs (d, na, nb) =
     (foldl (\<lambda>s (a, b). fadd s (fmul a b)) d (zip as bs),
      foldl (\<lambda>s a. fadd s (fmul a a)) na as,
      foldl (\<lambda>s b. fadd s (fmul b b)) nb bs)"
  by (induction as bs arbitrary: d na nb rule: list_induct2) simp_all

lemma calculateCosineSimilarity_eq:
  assumes "length as = length bs"
  shows "calculateCosineSimilarity as bs =
     Inr (if norm_f64 as = Num 0 \<or> norm_f64 bs = Num 0 then Num 0
          else fdiv (dot_f64 as bs) (fmul (norm_f64 as) (norm_f64 bs)))"
  using assms
  by (simp add: calculateCosineSimilarity_def cosine_loop_folds dot_f64_def norm_f64_def Let_def)

lemma round64_0 [simp]: "round64 0 = Num 0"
  by (simp add: round64_def)

lemma norm_f64_1_5: "norm_f64 [Num 1, Num 5] = Num (5740985595342838 / 2 ^ 50)"
  by (simp add: norm_f64_def round64_1 round64_25 round64_26 round64_sqrt_26)

lemma dot_f64_1_5: "dot_f64 [Num 1, Num 5] [Num 1, Num 5] = Num 26"
  by (simp add: dot_f64_def round64_1 round64_25 round64_26)

lemma product_of_norms_1_5:
  "fmul (Num (5740985595342838 / 2 ^ 50)) (Num (5740985595342838 / 2 ^ 50))
     = Num (7318349394477055 / 2 ^ 48)"
  by (simp only: fmul.simps round64_square)

lemma quotient_1_5: "fdiv (Num 26) (Num (7318349394477055 / 2 ^ 48)) = Num (1 + 1 / 2 ^ 52)"
proof -
  have "(7318349394477055 / 2 ^ 48 :: real) \<noteq> 0" by simp
  then show ?thesis by (simp only: fdiv.simps if_False round64_quotient)
qed

text \<open>
  C7. The claim: for vectors of one length the result is between \<open>-1\<close> and \<open>1\<close>. The code
  at \<open>a = b = [1, 5]\<close>: the sums are \<open>26\<close>, the rounded square root of \<open>26\<close> squared and
  rounded is a little less than \<open>26\<close>, and the quotient is the double next above \<open>1\<close>
  (printed \<open>1.0000000000000002\<close>).
\<close>

theorem cosine_f64_exceeds_one:
  "calculateCosineSimilarity [Num 1, Num 5] [Num 1, Num 5] = Inr (Num (1 + 1 / 2 ^ 52))
   \<and> (1::real) < 1 + 1 / 2 ^ 52"
proof -
  have nz: "Num (5740985595342838 / 2 ^ 50) \<noteq> Num 0" by simp
  have "calculateCosineSimilarity [Num 1, Num 5] [Num 1, Num 5]
          = Inr (fdiv (dot_f64 [Num 1, Num 5] [Num 1, Num 5])
                   (fmul (norm_f64 [Num 1, Num 5]) (norm_f64 [Num 1, Num 5])))"
    using nz by (subst calculateCosineSimilarity_eq) (simp_all only: norm_f64_1_5 length_Cons list.size if_False simp_thms)
  also have "\<dots> = Inr (Num (1 + 1 / 2 ^ 52))"
    by (simp only: norm_f64_1_5 dot_f64_1_5 product_of_norms_1_5 quotient_1_5)
  finally show ?thesis by simp
qed

lemma rne_ge:
  assumes "of_int n \<le> x"
  shows "n \<le> rne x"
proof -
  have "n \<le> \<lfloor>x\<rfloor>" using assms by (simp add: le_floor_iff)
  moreover have "\<lfloor>x\<rfloor> \<le> rne x" by (simp add: rne_def Let_def)
  ultimately show ?thesis by linarith
qed

lemma quantum_pos: "0 < quantum x"
  by (simp add: quantum_def)

lemma quantum_ge: "2 powr (- 1074) \<le> quantum x"
proof -
  have "- 1022 \<le> exponent x" by (simp add: exponent_def)
  then have "(- 1074 :: real) \<le> of_int (exponent x - 52)" by simp
  then show ?thesis unfolding quantum_def by (intro powr_mono) simp_all
qed

lemma floor_log_le:
  assumes "0 < x"
  shows "2 powr of_int \<lfloor>log 2 x\<rfloor> \<le> x"
  using floor_log_eq_powr_iff [of x 2 "\<lfloor>log 2 x\<rfloor>"] assms by simp

text \<open>A rounded number is zero or at least the smallest subnormal.\<close>

lemma round64_tiny:
  assumes "round64 x = Num r"
  shows "r = 0 \<or> 2 powr (- 1074) \<le> \<bar>r\<bar>"
proof (cases "x = 0")
  case True
  with assms show ?thesis by simp
next
  case False
  define n where "n = rne (x / quantum x)"
  from assms False have r: "r = quantum x * of_int n"
    by (simp add: round64_def Let_def n_def split: if_splits)
  show ?thesis
  proof (cases "n = 0")
    case True
    with r show ?thesis by simp
  next
    case False
    then have "1 \<le> \<bar>n\<bar>" by arith
    then have "(of_int 1 :: real) \<le> of_int \<bar>n\<bar>" by (simp only: of_int_le_iff)
    then have "1 \<le> \<bar>of_int n :: real\<bar>" by simp
    then have "quantum x * 1 \<le> quantum x * \<bar>of_int n\<bar>"
      using quantum_pos [of x] by (intro mult_left_mono) simp_all
    then have "quantum x \<le> \<bar>r\<bar>"
      using quantum_pos [of x] by (simp add: r abs_mult)
    with quantum_ge [of x] show ?thesis by linarith
  qed
qed

text \<open>Rounding a positive number keeps it at or above the power of two below it.\<close>

lemma round64_lower:
  assumes "0 < x" and "round64 x = Num r" and "- 1022 \<le> \<lfloor>log 2 x\<rfloor>"
  shows "2 powr of_int \<lfloor>log 2 x\<rfloor> \<le> r"
proof -
  let ?E = "\<lfloor>log 2 x\<rfloor>"
  have e: "exponent x = ?E" using assms(1,3) by (simp add: exponent_def)
  have q: "quantum x = 2 powr of_int (?E - 52)" by (simp add: quantum_def e)
  have split: "(2::real) powr of_int ?E = quantum x * 2 ^ 52"
  proof -
    have "(2::real) powr of_int ?E = 2 powr (of_int (?E - 52) + 52)" by simp
    also have "\<dots> = 2 powr of_int (?E - 52) * 2 powr 52" by (rule powr_add)
    finally show ?thesis by (simp add: q)
  qed
  have "quantum x * 2 ^ 52 \<le> x" using floor_log_le [OF assms(1)] split by simp
  then have "2 ^ 52 \<le> x / quantum x"
    using quantum_pos [of x] by (simp add: pos_le_divide_eq mult.commute)
  then have "of_int (2 ^ 52) \<le> x / quantum x" by simp
  then have n: "2 ^ 52 \<le> rne (x / quantum x)" by (rule rne_ge)
  from assms(1,2) have r: "r = quantum x * of_int (rne (x / quantum x))"
    by (simp add: round64_def Let_def split: if_splits)
  have "(2 ^ 52 :: real) \<le> of_int (rne (x / quantum x))"
    using n by (metis of_int_le_iff of_int_numeral of_int_power)
  then have "quantum x * 2 ^ 52 \<le> quantum x * of_int (rne (x / quantum x))"
    using quantum_pos [of x] by (intro mult_left_mono) simp_all
  then show ?thesis by (simp add: split r)
qed


lemma round64_pos_cases:
  assumes "0 < x"
  obtains "round64 x = PInf" | r where "round64 x = Num r"
proof (cases "2 ^ 1024 \<le> \<bar>quantum x * of_int (rne (x / quantum x))\<bar>")
  case True
  with assms have "round64 x = PInf" by (simp add: round64_def Let_def)
  then show ?thesis by (rule that(1))
next
  case False
  with assms have "round64 x = Num (quantum x * of_int (rne (x / quantum x)))"
    by (simp add: round64_def Let_def)
  then show ?thesis by (rule that(2))
qed

lemma floor_log_ge:
  assumes "2 powr of_int k \<le> x"
  shows "k \<le> \<lfloor>log 2 x\<rfloor>"
proof -
  have pos: "0 < x" using assms by (rule less_le_trans [rotated]) simp
  have "of_int k \<le> log 2 x"
    using assms pos by (simp add: le_log_iff)
  then show ?thesis by (simp add: le_floor_iff)
qed

lemma round64_keeps_lower_bound:
  assumes "2 powr of_int k \<le> x" and "- 1022 \<le> k" and "round64 x = Num r"
  shows "2 powr of_int k \<le> r"
proof -
  have pos: "0 < x" using assms(1) by (rule less_le_trans [rotated]) simp
  have k: "k \<le> \<lfloor>log 2 x\<rfloor>" by (rule floor_log_ge [OF assms(1)])
  then have "- 1022 \<le> \<lfloor>log 2 x\<rfloor>" using assms(2) by linarith
  from round64_lower [OF pos assms(3) this]
  have "2 powr of_int \<lfloor>log 2 x\<rfloor> \<le> r" .
  moreover have "(2::real) powr of_int k \<le> 2 powr of_int \<lfloor>log 2 x\<rfloor>"
    using k by (intro powr_mono) simp_all
  ultimately show ?thesis by linarith
qed

text \<open>A product of at least the smallest subnormal does not round to zero.\<close>

lemma round64_not_zero:
  assumes "2 powr (- 1074) \<le> x"
  shows "round64 x \<noteq> Num 0"
proof -
  have pos: "0 < x" using assms by (rule less_le_trans [rotated]) simp
  define n where "n = rne (x / quantum x)"
  have "1 \<le> n"
  proof (cases "- 1022 \<le> \<lfloor>log 2 x\<rfloor>")
    case True
    moreover have "\<bar>x\<bar> = x" using pos by simp
    ultimately have e: "exponent x = \<lfloor>log 2 x\<rfloor>"
      unfolding exponent_def by (simp only: max_absorb1)
    have "(2::real) powr of_int \<lfloor>log 2 x\<rfloor> = 2 powr (of_int (\<lfloor>log 2 x\<rfloor> - 52) + 52)"
      by simp
    also have "\<dots> = 2 powr of_int (\<lfloor>log 2 x\<rfloor> - 52) * 2 powr 52" by (rule powr_add)
    finally have "quantum x * 2 ^ 52 \<le> x"
      using floor_log_le [OF pos] by (simp add: quantum_def e)
    moreover have "quantum x * 1 \<le> quantum x * 2 ^ 52"
      using quantum_pos [of x] by (intro mult_left_mono) simp_all
    ultimately have "quantum x \<le> x" by simp
    then have "of_int 1 \<le> x / quantum x"
      using quantum_pos [of x] by (simp add: pos_le_divide_eq)
    then show ?thesis unfolding n_def by (rule rne_ge)
  next
    case False
    then have "\<lfloor>log 2 x\<rfloor> \<le> - 1022" by linarith
    moreover have "\<bar>x\<bar> = x" using pos by simp
    ultimately have "exponent x = - 1022"
      unfolding exponent_def by (simp only: max_absorb2)
    then have "quantum x = 2 powr (- 1074)" by (simp add: quantum_def)
    then have "quantum x \<le> x" using assms by simp
    then have "of_int 1 \<le> x / quantum x"
      using quantum_pos [of x] by (simp add: pos_le_divide_eq)
    then show ?thesis unfolding n_def by (rule rne_ge)
  qed
  then have "(0::real) < of_int n" by simp
  then have prod: "0 < quantum x * of_int n" using quantum_pos [of x] by simp
  show ?thesis
  proof (cases "2 ^ 1024 \<le> \<bar>quantum x * of_int n\<bar>")
    case True
    with pos have "round64 x = PInf" by (simp add: round64_def Let_def n_def)
    then show ?thesis by simp
  next
    case False
    with pos have "round64 x = Num (quantum x * of_int n)"
      by (simp add: round64_def Let_def n_def)
    moreover from prod have "quantum x * of_int n \<noteq> 0" by linarith
    ultimately show ?thesis by (simp only: double.inject) simp
  qed
qed

lemma round64_coarse: "coarse (round64 x)"
  using round64_tiny [of x] by (cases "round64 x") (auto simp: coarse_def)

lemma fadd_coarse: "coarse (fadd x y)"
  by (cases x; cases y) (simp_all add: round64_coarse, simp_all add: coarse_def)

lemma sum_of_squares_coarse: "coarse (foldl (\<lambda>s a. fadd s (fmul a a)) (Num 0) as)"
  by (cases as rule: rev_cases) (simp_all add: fadd_coarse, simp add: coarse_def)

lemma sqrt_subnormal: "sqrt (2 powr (- 1074)) = 2 powr (- 537)"
proof -
  have "sqrt (2 powr (- 1074)) = (2 powr (- 1074)) powr (1 / 2)"
    by (simp add: powr_half_sqrt)
  also have "\<dots> = 2 powr (- 537)" by (simp add: powr_powr)
  finally show ?thesis .
qed

lemma fsqrt_large:
  assumes "coarse d" and "fsqrt d \<noteq> Num 0"
  shows "large (fsqrt d)"
proof (cases d)
  case (Num v)
  show ?thesis
  proof (cases "v < 0")
    case True
    with Num show ?thesis by (simp add: large_def)
  next
    case False
    with assms Num have "v \<noteq> 0" by auto
    with False assms(1) Num have "2 powr (- 1074) \<le> v" by (simp add: coarse_def)
    then have "sqrt (2 powr (- 1074)) \<le> sqrt v" by simp
    then have low: "2 powr of_int (- 537) \<le> sqrt v" by (simp add: sqrt_subnormal)
    then have pos: "0 < sqrt v" by (rule less_le_trans [rotated]) simp
    show ?thesis
    proof (rule round64_pos_cases [OF pos])
      assume "round64 (sqrt v) = PInf"
      with Num False show ?thesis by (simp add: large_def)
    next
      fix r assume r: "round64 (sqrt v) = Num r"
      from round64_keeps_lower_bound [OF low _ r] have "2 powr (- 537) \<le> r" by simp
      with Num False r show ?thesis by (simp add: large_def)
    qed
  qed
qed (simp_all add: large_def)

lemma fmul_large_not_zero:
  assumes "large x" and "large y"
  shows "fmul x y \<noteq> Num 0"
proof (cases x; cases y)
  fix a b assume x: "x = Num a" and y: "y = Num b"
  with assms have a: "2 powr (- 537) \<le> a" and b: "2 powr (- 537) \<le> b"
    by (simp_all add: large_def)
  have "(0::real) \<le> 2 powr (- 537)" by simp
  with a have "0 \<le> a" by linarith
  then have "2 powr (- 537) * 2 powr (- 537) \<le> a * b"
    using a b by (intro mult_mono) simp_all
  moreover have "(2::real) powr (- 537) * 2 powr (- 537) = 2 powr (- 1074)"
    by (simp add: powr_add [symmetric])
  ultimately have "2 powr (- 1074) \<le> a * b" by simp
  from round64_not_zero [OF this] show ?thesis by (simp add: x y)
next
  fix a assume x: "x = Num a" and y: "y = PInf"
  with assms have "2 powr (- 537) \<le> a" by (simp add: large_def)
  then have "0 < a" by (rule less_le_trans [rotated]) simp
  then show ?thesis by (simp add: x y)
next
  fix a assume x: "x = Num a" and y: "y = NInf"
  with assms have "2 powr (- 537) \<le> a" by (simp add: large_def)
  then have "0 < a" by (rule less_le_trans [rotated]) simp
  then show ?thesis by (simp add: x y)
next
  fix b assume x: "x = PInf" and y: "y = Num b"
  with assms have "2 powr (- 537) \<le> b" by (simp add: large_def)
  then have "0 < b" by (rule less_le_trans [rotated]) simp
  then show ?thesis by (simp add: x y)
next
  fix b assume x: "x = NInf" and y: "y = Num b"
  with assms have "2 powr (- 537) \<le> b" by (simp add: large_def)
  then have "0 < b" by (rule less_le_trans [rotated]) simp
  then show ?thesis by (simp add: x y)
qed simp_all

lemma product_of_norms_not_zero:
  assumes "norm_f64 as \<noteq> Num 0" and "norm_f64 bs \<noteq> Num 0"
  shows "fmul (norm_f64 as) (norm_f64 bs) \<noteq> Num 0"
  using assms unfolding norm_f64_def
  by (intro fmul_large_not_zero fsqrt_large sum_of_squares_coarse)

lemma round64_Num_bound:
  assumes "round64 x = Num r"
  shows "\<bar>r\<bar> < 2 ^ 1024"
proof (cases "x = 0")
  case True
  with assms show ?thesis by simp
next
  case False
  with assms show ?thesis by (simp add: round64_def Let_def split: if_splits)
qed

lemma round64_overflow:
  assumes "2 ^ 1024 \<le> x"
  shows "round64 x = PInf"
proof -
  have big: "2 powr of_int 1024 \<le> x" using assms by simp
  have pos: "0 < x" using assms by (rule less_le_trans [rotated]) simp
  show ?thesis
  proof (rule round64_pos_cases [OF pos])
    fix r assume r: "round64 x = Num r"
    from round64_keeps_lower_bound [OF big _ r] have "2 ^ 1024 \<le> r" by simp
    with round64_Num_bound [OF r] show ?thesis by linarith
  qed
qed

lemma round64_underflow:
  assumes "0 < x" and "x < 2 powr (- 1075)"
  shows "round64 x = Num 0"
proof -
  have "log 2 x < log 2 (2 powr (- 1075))"
    using assms by (subst log_less_cancel_iff) simp_all
  then have "log 2 x < - 1075" by simp
  then have "\<lfloor>log 2 x\<rfloor> \<le> - 1022" by (simp add: floor_le_iff)
  moreover have "\<bar>x\<bar> = x" using assms(1) by simp
  ultimately have "exponent x = - 1022"
    unfolding exponent_def by (simp only: max_absorb2)
  then have q: "quantum x = 2 powr (- 1074)" by (simp add: quantum_def)
  have "(2::real) powr (- 1075) = 2 powr (- 1074 + - 1)" by simp
  also have "\<dots> = 2 powr (- 1074) * 2 powr (- 1)" by (rule powr_add)
  also have "\<dots> = quantum x / 2" by (simp add: q powr_minus inverse_eq_divide)
  finally have "x < quantum x / 2" using assms(2) by simp
  then have half: "x / quantum x < 1 / 2"
    using quantum_pos [of x] by (simp add: pos_divide_less_eq)
  have "0 < x / quantum x" using assms(1) quantum_pos [of x] by simp
  then have "rne (x / quantum x) = 0" using half by (intro rne_between) simp_all
  then show ?thesis using assms(1) by (simp add: round64_def Let_def)
qed

text \<open>Squares that overflow give \<open>NaN\<close>; squares that underflow give \<open>0\<close> for a non-zero vector.\<close>

lemma cosine_f64_overflow:
  "calculateCosineSimilarity [Num (2 ^ 600)] [Num (2 ^ 600)] = Inr NaN"
proof -
  have "(2::real) ^ 1024 \<le> 2 ^ 600 * 2 ^ 600" by simp
  then have sq: "round64 (2 ^ 600 * 2 ^ 600) = PInf" by (rule round64_overflow)
  have m: "fmul (Num (2 ^ 600)) (Num (2 ^ 600)) = PInf" by (simp only: fmul.simps sq)
  have loop: "cosine_loop [Num (2 ^ 600)] [Num (2 ^ 600)] (Num 0, Num 0, Num 0)
                = (PInf, PInf, PInf)"
    by (simp only: cosine_loop.simps m fadd.simps)
  show ?thesis
    unfolding calculateCosineSimilarity_def loop by simp
qed

lemma cosine_f64_underflow:
  "calculateCosineSimilarity [Num (1 / 2 ^ 600)] [Num (1 / 2 ^ 600)] = Inr (Num 0)"
proof -
  have "(1 / 2 ^ 600 * (1 / 2 ^ 600) :: real) < 2 powr (- 1075)"
    by (simp add: powr_neg_numeral)
  moreover have "(0::real) < 1 / 2 ^ 600 * (1 / 2 ^ 600)" by simp
  ultimately have sq: "round64 (1 / 2 ^ 600 * (1 / 2 ^ 600)) = Num 0"
    by (intro round64_underflow)
  show ?thesis
    by (simp only: calculateCosineSimilarity_def cosine_loop.simps fmul.simps fadd.simps sq
        Let_def prod.case fsqrt.simps list.size)
      simp
qed

text \<open>
  Rounding to nearest even is symmetric, so with \<open>b = [-1, -5]\<close> the result is the double
  next below \<open>-1\<close>.
\<close>

lemma rne_minus: "rne (- x) = - rne x"
proof (cases "x = of_int \<lfloor>x\<rfloor>")
  case True
  then obtain n where "x = of_int n" ..
  then show ?thesis by (simp add: rne_of_int [of "- n", simplified])
next
  case False
  have "of_int \<lfloor>x\<rfloor> \<le> x" and up: "x < of_int \<lfloor>x\<rfloor> + 1" by linarith+
  with False have low: "of_int \<lfloor>x\<rfloor> < x" by linarith
  have f: "\<lfloor>- x\<rfloor> = - \<lfloor>x\<rfloor> - 1"
  proof (rule floor_unique)
    have c: "(of_int (- \<lfloor>x\<rfloor> - 1) :: real) = - of_int \<lfloor>x\<rfloor> - 1" by simp
    show "of_int (- \<lfloor>x\<rfloor> - 1) \<le> - x" unfolding c using up by linarith
    show "- x < of_int (- \<lfloor>x\<rfloor> - 1) + 1" unfolding c using low by linarith
  qed
  have d: "- x - of_int (- \<lfloor>x\<rfloor> - 1) = 1 - (x - of_int \<lfloor>x\<rfloor>)" by simp
  show ?thesis
    unfolding rne_def Let_def f d by (auto simp: algebra_simps)
qed

lemma round64_minus: "round64 (- x) = fneg (round64 x)"
  by (simp add: round64_def exponent_def quantum_def Let_def rne_minus abs_mult)

lemma norm_f64_m1_m5: "norm_f64 [Num (- 1), Num (- 5)] = Num (5740985595342838 / 2 ^ 50)"
  by (simp add: norm_f64_def round64_1 round64_25 round64_26 round64_sqrt_26)

lemma dot_f64_m1_m5: "dot_f64 [Num 1, Num 5] [Num (- 1), Num (- 5)] = Num (- 26)"
  using round64_minus [of 1] round64_minus [of 25] round64_minus [of 26]
  by (simp add: dot_f64_def round64_1 round64_25 round64_26)

lemma quotient_m1_m5:
  "fdiv (Num (- 26)) (Num (7318349394477055 / 2 ^ 48)) = Num (- (1 + 1 / 2 ^ 52))"
proof -
  have nz: "(7318349394477055 / 2 ^ 48 :: real) \<noteq> 0" by simp
  have "round64 (- 26 / (7318349394477055 / 2 ^ 48)) = fneg (round64 (26 / (7318349394477055 / 2 ^ 48)))"
    using round64_minus [of "26 / (7318349394477055 / 2 ^ 48)"] by (simp only: minus_divide_left)
  also have "\<dots> = Num (- (1 + 1 / 2 ^ 52))"
    by (simp only: round64_quotient fneg.simps)
  finally show ?thesis using nz by (simp only: fdiv.simps if_False)
qed

lemma cosine_f64_below_minus_one:
  "calculateCosineSimilarity [Num 1, Num 5] [Num (- 1), Num (- 5)] = Inr (Num (- (1 + 1 / 2 ^ 52)))"
proof -
  have nz: "Num (5740985595342838 / 2 ^ 50) \<noteq> Num 0" by simp
  have "calculateCosineSimilarity [Num 1, Num 5] [Num (- 1), Num (- 5)]
          = Inr (fdiv (dot_f64 [Num 1, Num 5] [Num (- 1), Num (- 5)])
                   (fmul (norm_f64 [Num 1, Num 5]) (norm_f64 [Num (- 1), Num (- 5)])))"
    using nz by (subst calculateCosineSimilarity_eq)
      (simp_all only: norm_f64_1_5 norm_f64_m1_m5 length_Cons list.size if_False simp_thms)
  also have "\<dots> = Inr (Num (- (1 + 1 / 2 ^ 52)))"
    by (simp only: norm_f64_1_5 norm_f64_m1_m5 dot_f64_m1_m5 product_of_norms_1_5 quotient_m1_m5)
  finally show ?thesis .
qed

lemma zero_vector_norm:
  assumes "\<forall>a\<in>set as. a = Num 0"
  shows "norm_f64 as = Num 0"
proof -
  have "foldl (\<lambda>s a. fadd s (fmul a a)) (Num 0) as = Num 0"
    using assms by (induction as) simp_all
  then show ?thesis by (simp add: norm_f64_def)
qed

text \<open>
  C7, as the code has it. The dimension error is thrown exactly when the two vectors
  differ in length. For vectors of one length the function returns: \<open>0\<close> when the
  computed norm of either vector is \<open>0\<close>, as it is for a vector of zeros; otherwise the
  computed dot product divided by the product of the computed norms, and that divisor is
  not \<open>0\<close>. Nothing bounds the quotient: see \<open>cosine_f64_exceeds_one\<close> and
  \<open>cosine_f64_overflow\<close>.
\<close>

theorem calculateCosineSimilarity_contract:
  "(calculateCosineSimilarity as bs = Inl (Error ''Vectors must have the same dimensions'')
      \<longleftrightarrow> length as \<noteq> length bs)
   \<and> (length as = length bs \<longrightarrow>
        (\<exists>c. calculateCosineSimilarity as bs = Inr c
           \<and> (norm_f64 as = Num 0 \<or> norm_f64 bs = Num 0 \<longrightarrow> c = Num 0)
           \<and> (norm_f64 as \<noteq> Num 0 \<and> norm_f64 bs \<noteq> Num 0 \<longrightarrow>
                  fmul (norm_f64 as) (norm_f64 bs) \<noteq> Num 0
                  \<and> c = fdiv (dot_f64 as bs) (fmul (norm_f64 as) (norm_f64 bs)))))
   \<and> ((\<forall>a\<in>set as. a = Num 0) \<longrightarrow> norm_f64 as = Num 0)
   \<and> ((\<forall>b\<in>set bs. b = Num 0) \<longrightarrow> norm_f64 bs = Num 0)"
proof (cases "length as = length bs")
  case False
  then show ?thesis by (simp add: calculateCosineSimilarity_def zero_vector_norm)
next
  case True
  from calculateCosineSimilarity_eq [OF True] product_of_norms_not_zero [of as bs] True
  show ?thesis by (auto simp: zero_vector_norm)
qed

theorem calculateCosineSimilarity_contract_witness:
  "calculateCosineSimilarity [Num 0, Num 0] [Num 1, Num 5] = Inr (Num 0)
   \<and> calculateCosineSimilarity [Num 1] [Num 1, Num 5]
       = Inl (Error ''Vectors must have the same dimensions'')"
  using calculateCosineSimilarity_contract [of "[Num 0, Num 0]" "[Num 1, Num 5]"]
    calculateCosineSimilarity_contract [of "[Num 1]" "[Num 1, Num 5]"]
  by auto

end
